(* ===== verification/Prelude.thy ===== *)
theory Prelude
  imports Main
begin

text \<open>
  Shared vocabulary of the development: the Python and Django behaviour that the view
  module \<open>src/oai/views.py\<close> relies on, written as plain HOL functions.
  \<^item> exceptions that escape a view (\<open>exc\<close>), and Django's \<open>Manager.get\<close>, which raises
    \<open>DoesNotExist\<close> or \<open>MultipleObjectsReturned\<close> unless exactly one row matches;
  \<^item> Python strings: truthiness of an optional string, \<open>str.split\<close> on one character;
  \<^item> Python dicts as association lists in insertion order (\<open>dict.pop\<close>, \<open>d[k] = v\<close>)
    and Django's \<open>QueryDict\<close> (a multi-valued list of pairs: \<open>get\<close> returns the last
    value of a key, \<open>dict()\<close> keeps the keys in first-occurrence order);
  \<^item> list slicing \<open>xs[i:j]\<close> for non-negative bounds.
  The generic lemmas about them are collected in the named collection \<open>py_simps\<close>.
\<close>

named_theorems py_simps "characteristic equations of the Python helpers"

section \<open>Definitions\<close>

datatype exc =
    DoesNotExist string           \<comment> \<open>\<open>Model.DoesNotExist\<close>, with the model's name\<close>
  | MultipleObjectsReturned string
  | NameError string              \<comment> \<open>an unbound Python name\<close>

definition objects_get :: "string \<Rightarrow> ('a \<Rightarrow> bool) \<Rightarrow> 'a list \<Rightarrow> exc + 'a" where
  "objects_get model P rows =
     (case filter P rows of
        [] \<Rightarrow> Inl (DoesNotExist model)
      | [r] \<Rightarrow> Inr r
      | _ \<Rightarrow> Inl (MultipleObjectsReturned model))"

text \<open>Python's truth value of a value that is \<open>None\<close> or a string.\<close>

definition py_truthy :: "string option \<Rightarrow> bool" where
  "py_truthy v = (case v of None \<Rightarrow> False | Some s \<Rightarrow> s \<noteq> [])"

text \<open>The value that passes \<open>if v:\<close>, for \<open>v\<close> \<open>None\<close> or a string.\<close>

definition truthy_value :: "string option \<Rightarrow> string option" where
  "truthy_value v = (case v of Some s \<Rightarrow> if s = [] then None else Some s | None \<Rightarrow> None)"

text \<open>\<open>s.split(c)\<close> for a one-character separator: always at least one field.\<close>

fun py_split :: "char \<Rightarrow> string \<Rightarrow> string list" where
  "py_split c [] = [[]]"
| "py_split c (x # xs) =
     (if x = c then [] # py_split c xs
      else (case py_split c xs of [] \<Rightarrow> [[x]] | w # ws \<Rightarrow> (x # w) # ws))"

text \<open>
  A Python dict is an association list with distinct keys, in insertion order.
  \<open>d[k] = v\<close> overwrites in place or appends; \<open>d.pop(k, None)\<close> returns the value (or
  \<open>None\<close>) and the dict without the key.
\<close>

type_synonym ('k, 'v) pydict = "('k \<times> 'v) list"

definition dict_set :: "'k \<Rightarrow> 'v \<Rightarrow> ('k, 'v) pydict \<Rightarrow> ('k, 'v) pydict" where
  "dict_set k v d =
     (if k \<in> fst ` set d then map (\<lambda>(k', v'). if k' = k then (k', v) else (k', v')) d
      else d @ [(k, v)])"

definition dict_pop :: "'k \<Rightarrow> ('k, 'v) pydict \<Rightarrow> 'v option \<times> ('k, 'v) pydict" where
  "dict_pop k d = (map_of d k, filter (\<lambda>p. fst p \<noteq> k) d)"

type_synonym querydict = "(string \<times> string) list"

text \<open>\<open>QueryDict.get(k)\<close>: the last value given for \<open>k\<close>.\<close>

definition qd_get :: "string \<Rightarrow> querydict \<Rightarrow> string option" where
  "qd_get k q = map_of (rev q) k"

text \<open>\<open>QueryDict.dict()\<close>: one entry per key, the last value, keys in first-occurrence order.\<close>

definition qd_dict :: "querydict \<Rightarrow> (string, string) pydict" where
  "qd_dict q = fold (\<lambda>(k, v) d. dict_set k v d) q []"

text \<open>\<open>xs[i:j]\<close> with \<open>0 \<le> i\<close>, \<open>0 \<le> j\<close>: clipped to the list, empty when \<open>j \<le> i\<close>.\<close>

definition py_slice :: "'a list \<Rightarrow> nat \<Rightarrow> nat \<Rightarrow> 'a list" where
  "py_slice xs i j = take (j - i) (drop i xs)"

section \<open>Lemmas\<close>

lemma objects_get_Inr_iff [py_simps]:
  "objects_get model P rows = Inr r \<longleftrightarrow> filter P rows = [r]"
  by (auto simp: objects_get_def split: list.splits)

lemma objects_get_none [py_simps]:
  "\<not> (\<exists>r \<in> set rows. P r) \<Longrightarrow> objects_get model P rows = Inl (DoesNotExist model)"
  by (simp add: objects_get_def filter_empty_conv)

lemma objects_get_unique:
  assumes "r \<in> set rows" and "distinct rows"
    and "\<forall>r' \<in> set rows. P r' \<longleftrightarrow> r' = r"
  shows "objects_get model P rows = Inr r"
proof -
  have s: "set (filter P rows) = {r}" using assms(1,3) by auto
  from assms(2) have "distinct (filter P rows)" by simp
  then have "length (filter P rows) = card (set (filter P rows))" by (metis distinct_card)
  with s have "length (filter P rows) = Suc 0" by simp
  then obtain y where "filter P rows = [y]" by (auto simp: length_Suc_conv)
  with s have "filter P rows = [r]" by simp
  then show ?thesis by (simp add: objects_get_Inr_iff)
qed

lemma py_truthy_simps [simp, py_simps]:
  "py_truthy None = False" "py_truthy (Some s) = (s \<noteq> [])"
  by (simp_all add: py_truthy_def)

lemma truthy_value_simps [simp, py_simps]:
  "truthy_value None = None" "truthy_value (Some s) = (if s = [] then None else Some s)"
  by (simp_all add: truthy_value_def)

lemma truthy_value_Some [py_simps]: "truthy_value v = Some s \<longleftrightarrow> v = Some s \<and> s \<noteq> []"
  by (auto simp: truthy_value_def split: option.splits)

lemma truthy_value_not_empty [simp]: "truthy_value v \<noteq> Some []"
  by (simp add: truthy_value_def split: option.split)

lemma py_split_not_Nil [simp]: "py_split c xs \<noteq> []"
  by (cases xs) (auto split: list.split)

lemma py_split_no_sep [py_simps]: "c \<notin> set a \<Longrightarrow> py_split c a = [a]"
  by (induction a) auto

lemma py_split_append_sep [py_simps]:
  "c \<notin> set a \<Longrightarrow> py_split c (a @ c # b) = a # py_split c b"
proof (induction a)
  case Nil
  then show ?case by simp
next
  case (Cons x a)
  from Cons.prems have "x \<noteq> c" and "c \<notin> set a" by auto
  moreover from \<open>c \<notin> set a\<close> have "py_split c (a @ c # b) = a # py_split c b"
    by (rule Cons.IH)
  ultimately show ?case by simp
qed

lemma py_split_append_nosep [py_simps]:
  "c \<notin> set a \<Longrightarrow>
   py_split c (a @ b) = (case py_split c b of [] \<Rightarrow> [a] | w # ws \<Rightarrow> (a @ w) # ws)"
proof (induction a)
  case Nil
  then show ?case by (simp split: list.split)
next
  case (Cons x a)
  then have "x \<noteq> c" and "c \<notin> set a" by auto
  with Cons.IH show ?case by (simp split: list.split)
qed

lemma map_of_overwrite:
  "map_of (map (\<lambda>(k', v'). if k' = k then (k', v) else (k', v')) d) x =
   (if x = k \<and> k \<in> fst ` set d then Some v else map_of d x)"
proof (induction d arbitrary: x)
  case (Cons p d)
  then show ?case by (cases p) simp
qed simp

lemma map_of_dict_set [py_simps]: "map_of (dict_set k v d) = (map_of d)(k \<mapsto> v)"
proof
  fix x
  show "map_of (dict_set k v d) x = ((map_of d)(k \<mapsto> v)) x"
  proof (cases "k \<in> fst ` set d")
    case True
    then show ?thesis by (simp add: dict_set_def map_of_overwrite)
  next
    case False
    then have "map_of d k = None" by (simp add: map_of_eq_None_iff)
    with False show ?thesis by (auto simp: dict_set_def map_add_def split: option.splits)
  qed
qed

lemma keys_dict_set [py_simps]: "map fst (dict_set k v d) =
   (if k \<in> fst ` set d then map fst d else map fst d @ [k])"
  by (induction d) (auto simp: dict_set_def)

lemma distinct_dict_set: "distinct (map fst d) \<Longrightarrow> distinct (map fst (dict_set k v d))"
  by (simp add: keys_dict_set)

lemma map_of_qd_dict_gen:
  "map_of (fold (\<lambda>(k, v) d. dict_set k v d) q d) = map_of (rev q @ d)"
proof (induction q arbitrary: d)
  case Nil
  then show ?case by simp
next
  case (Cons p q)
  obtain k v where p: "p = (k, v)" by force
  have "map_of (rev q @ dict_set k v d) = map_of (rev q @ (k, v) # d)"
    by (simp add: map_of_dict_set)
  moreover have "map_of (fold (\<lambda>(k, v) d. dict_set k v d) (p # q) d) =
      map_of (rev q @ dict_set k v d)"
    using Cons.IH [of "dict_set k v d"] by (simp add: p)
  ultimately show ?case by (simp add: p)
qed

lemma map_of_qd_dict [py_simps]: "map_of (qd_dict q) = map_of (rev q)"
  using map_of_qd_dict_gen [of q "[]"] by (simp add: qd_dict_def)

lemma distinct_fold_dict_set:
  "distinct (map fst d) \<Longrightarrow> distinct (map fst (fold (\<lambda>(k, v) d. dict_set k v d) q d))"
proof (induction q arbitrary: d)
  case (Cons p q)
  obtain k v where p: "p = (k, v)" by force
  from Cons.prems have "distinct (map fst (dict_set k v d))" by (rule distinct_dict_set)
  then have "distinct (map fst (fold (\<lambda>(k, v) d. dict_set k v d) q (dict_set k v d)))"
    by (rule Cons.IH)
  then show ?case by (simp add: p)
qed simp

lemma distinct_qd_dict: "distinct (map fst (qd_dict q))"
  unfolding qd_dict_def by (rule distinct_fold_dict_set) simp

lemma map_of_filter_key:
  "map_of (filter (\<lambda>p. fst p \<noteq> k) d) x = (if x = k then None else map_of d x)"
proof (induction d arbitrary: x)
  case (Cons p d)
  then show ?case by (cases p) simp
qed simp

lemma keys_fold_dict_set: "\<exists>zs. map fst (fold (\<lambda>(k, v) d. dict_set k v d) ys d) = map fst d @ zs"
proof (induction ys arbitrary: d)
  case (Cons p ys)
  obtain k v where p: "p = (k, v)" by force
  obtain zs where "map fst (fold (\<lambda>(k, v) d. dict_set k v d) ys (dict_set k v d)) =
      map fst (dict_set k v d) @ zs" using Cons.IH by blast
  then show ?case by (auto simp: p keys_dict_set)
qed simp

lemma keys_qd_dict: "fst ` set (qd_dict q) = fst ` set q"
proof -
  have "dom (map_of (qd_dict q)) = dom (map_of (rev q))" by (simp add: map_of_qd_dict)
  then show ?thesis by (simp add: dom_map_of_conv_image_fst)
qed

lemma map_fst_filter: "map fst (filter (\<lambda>p. fst p \<notin> S) xs) = filter (\<lambda>k. k \<notin> S) (map fst xs)"
  by (induction xs) auto

lemma dict_pop_fst [py_simps]: "fst (dict_pop k d) = map_of d k"
  by (simp add: dict_pop_def)

lemma map_of_dict_pop [py_simps]:
  "map_of (snd (dict_pop k d)) x = (if x = k then None else map_of d x)"
  by (simp add: dict_pop_def map_of_filter_key)

lemma keys_dict_pop [py_simps]: "map fst (snd (dict_pop k d)) = filter (\<lambda>k'. k' \<noteq> k) (map fst d)"
  by (induction d) (simp_all add: dict_pop_def)

lemma length_py_slice [py_simps]: "length (py_slice xs i j) = min (j - i) (length xs - i)"
  by (simp add: py_slice_def)

lemma py_slice_append [py_simps]:
  "py_slice xs i (i + k) @ drop (i + k) xs = drop i xs"
proof -
  have "take k (drop i xs) @ drop k (drop i xs) = drop i xs"
    by (rule append_take_drop_id)
  then show ?thesis by (simp add: py_slice_def add.commute)
qed

lemma filter_singleton_mem: "filter P xs = [a] \<Longrightarrow> a \<in> set xs \<and> P a"
proof -
  assume "filter P xs = [a]"
  then have "a \<in> set (filter P xs)" by simp
  then show ?thesis by simp
qed

lemma objects_get_Inl:
  assumes "objects_get model P rows = Inl e" and "distinct rows"
  shows "e = DoesNotExist model \<or>
    (e = MultipleObjectsReturned model \<and> (\<exists>a b. a \<in> set rows \<and> b \<in> set rows \<and> a \<noteq> b \<and> P a \<and> P b))"
proof (cases "filter P rows")
  case Nil
  with assms(1) show ?thesis by (simp add: objects_get_def)
next
  case (Cons a rest)
  show ?thesis
  proof (cases rest)
    case Nil
    with Cons assms(1) show ?thesis by (simp add: objects_get_def)
  next
    case (Cons b rest')
    from assms(2) have "distinct (filter P rows)" by simp
    with \<open>filter P rows = a # rest\<close> Cons have "a \<noteq> b" by auto
    moreover have "a \<in> set (filter P rows)" "b \<in> set (filter P rows)"
      using \<open>filter P rows = a # rest\<close> Cons by simp_all
    moreover have "e = MultipleObjectsReturned model"
      using assms(1) \<open>filter P rows = a # rest\<close> Cons by (simp add: objects_get_def)
    ultimately show ?thesis by auto
  qed
qed

end
