(* ===== verification/DateTime.thy ===== *)
theory DateTime
  imports Prelude "HOL-Library.Product_Lexorder"
begin

text \<open>
  Datestamps. The view module compares and prints Python \<open>datetime\<close> values and parses
  request arguments with \<open>oaipmh.datestamp.tolerant_datestamp_to_datetime\<close> (pyoai).
  Neither library is part of the repository: both are modelled here from their
  documented behaviour, as the spec describes it.
  \<^item> \<open>datetime\<close>: the seven fields of a naive Python \<open>datetime\<close>, ordered
    lexicographically as Python compares them (an \<^theory_text>\<open>instantiation\<close> of
    \<open>linorder\<close>), with the range checks of its constructor (\<open>mk_datetime\<close>);
  \<^item> \<open>isoformat\<close>: \<open>datetime.isoformat()\<close>;
  \<^item> \<open>py_int\<close>: Python 2 \<open>int(s)\<close> on an ASCII string;
  \<^item> \<open>tolerant_datestamp_to_datetime\<close>: the pyoai parser, which accepts
    \<open>YYYY\<close>, \<open>YYYY-MM\<close>, \<open>YYYY-MM-DD\<close> and \<open>YYYY-MM-DDThh:mm:ssZ\<close>.
    Every rejection (the library's \<open>DatestampError\<close> and the \<open>ValueError\<close> of
    \<open>int\<close> and of the constructor) is \<open>None\<close>, the "malformed value" of the spec.
  The main lemma is the roundtrip: the parser reads back what \<open>isoformat\<close> prints.
\<close>

section \<open>Python datetime values and their order\<close>

datatype datetime = DateTime int int int int int int int
  \<comment> \<open>year, month, day, hour, minute, second, microsecond\<close>

fun dt_tuple :: "datetime \<Rightarrow> int \<times> int \<times> int \<times> int \<times> int \<times> int \<times> int" where
  "dt_tuple (DateTime y mo d h mi s us) = (y, mo, d, h, mi, s, us)"

fun dt_microsecond :: "datetime \<Rightarrow> int" where
  "dt_microsecond (DateTime y mo d h mi s us) = us"

instantiation datetime :: linorder
begin

definition less_eq_datetime :: "datetime \<Rightarrow> datetime \<Rightarrow> bool" where
  "a \<le> b \<longleftrightarrow> dt_tuple a \<le> dt_tuple b"

definition less_datetime :: "datetime \<Rightarrow> datetime \<Rightarrow> bool" where
  "a < b \<longleftrightarrow> dt_tuple a < dt_tuple b"

instance
proof
  fix a b c :: datetime
  show "(a < b) = (a \<le> b \<and> \<not> b \<le> a)"
    by (simp add: less_eq_datetime_def less_datetime_def less_le_not_le)
  show "a \<le> a" by (simp add: less_eq_datetime_def)
  show "a \<le> b \<Longrightarrow> b \<le> c \<Longrightarrow> a \<le> c"
    unfolding less_eq_datetime_def by (rule order_trans)
  show "a \<le> b \<Longrightarrow> b \<le> a \<Longrightarrow> a = b"
  proof -
    assume "a \<le> b" and "b \<le> a"
    then have "dt_tuple a = dt_tuple b" unfolding less_eq_datetime_def by (rule order_antisym)
    then show "a = b" by (cases a; cases b) simp
  qed
  show "a \<le> b \<or> b \<le> a"
    unfolding less_eq_datetime_def by (rule linear)
qed

end

text \<open>\<open>dt.replace(microsecond=0)\<close>.\<close>

fun replace_microsecond :: "datetime \<Rightarrow> int \<Rightarrow> datetime" where
  "replace_microsecond (DateTime y mo d h mi s us) us' = DateTime y mo d h mi s us'"

definition is_leap :: "int \<Rightarrow> bool" where
  "is_leap y \<longleftrightarrow> 4 dvd y \<and> (\<not> 100 dvd y \<or> 400 dvd y)"

definition days_in_month :: "int \<Rightarrow> int \<Rightarrow> int" where
  "days_in_month y mo =
     (if mo = 2 then (if is_leap y then 29 else 28)
      else if mo \<in> {4, 6, 9, 11} then 30 else 31)"

text \<open>The range checks of the constructor \<open>datetime(y, mo, d, h, mi, s, us)\<close>.\<close>

fun dt_valid :: "datetime \<Rightarrow> bool" where
  "dt_valid (DateTime y mo d h mi s us) \<longleftrightarrow>
     1 \<le> y \<and> y \<le> 9999 \<and> 1 \<le> mo \<and> mo \<le> 12 \<and> 1 \<le> d \<and> d \<le> days_in_month y mo \<and>
     0 \<le> h \<and> h < 24 \<and> 0 \<le> mi \<and> mi < 60 \<and> 0 \<le> s \<and> s < 60 \<and> 0 \<le> us \<and> us < 1000000"

definition mk_datetime :: "int \<Rightarrow> int \<Rightarrow> int \<Rightarrow> int \<Rightarrow> int \<Rightarrow> int \<Rightarrow> datetime option" where
  "mk_datetime y mo d h mi s =
     (let dt = DateTime y mo d h mi s 0 in if dt_valid dt then Some dt else None)"

section \<open>Decimal digits\<close>

definition is_digit :: "char \<Rightarrow> bool" where
  "is_digit c \<longleftrightarrow> 48 \<le> (of_char c :: nat) \<and> (of_char c :: nat) \<le> 57"

definition digit_value :: "char \<Rightarrow> nat" where
  "digit_value c = of_char c - 48"

definition digits_val :: "string \<Rightarrow> nat" where
  "digits_val s = foldl (\<lambda>n c. 10 * n + digit_value c) 0 s"

definition digit_char :: "nat \<Rightarrow> char" where
  "digit_char k = char_of (48 + k)"

fun show_nat :: "nat \<Rightarrow> string" where
  "show_nat n = (if n < 10 then [digit_char n] else show_nat (n div 10) @ [digit_char (n mod 10)])"

declare show_nat.simps [simp del]

text \<open>\<open>'%0kd' % n\<close> for \<open>n \<ge> 0\<close>: zero-padded to at least \<open>k\<close> digits.\<close>

definition zpad :: "nat \<Rightarrow> nat \<Rightarrow> string" where
  "zpad k n = (let s = show_nat n in replicate (k - length s) (CHR ''0'') @ s)"

section \<open>Python 2 int() on a string\<close>

definition is_space :: "char \<Rightarrow> bool" where
  "is_space c \<longleftrightarrow> (of_char c :: nat) \<in> {9, 10, 11, 12, 13, 32}"

definition py_strip :: "string \<Rightarrow> string" where
  "py_strip s = rev (dropWhile is_space (rev (dropWhile is_space s)))"

fun int_body :: "string \<Rightarrow> int option" where
  "int_body [] = None"
| "int_body (c # ds) =
     (if c = CHR ''-'' \<or> c = CHR ''+'' then
        (if ds \<noteq> [] \<and> list_all is_digit ds
         then Some ((if c = CHR ''-'' then -1 else 1) * int (digits_val ds)) else None)
      else if list_all is_digit (c # ds) then Some (int (digits_val (c # ds))) else None)"

definition py_int :: "string \<Rightarrow> int option" where
  "py_int s = int_body (py_strip s)"

section \<open>The pyoai datestamp parser\<close>

text \<open>
  The three unpacking steps of the parser: on \<open>'T'\<close> (date and time, the time must end
  in \<open>'Z'\<close>; any other number of parts keeps the first as the date and midnight as the
  time), on \<open>'-'\<close> (year, month, day with month and day defaulting to \<open>'01'\<close>) and on
  \<open>':'\<close> (exactly three parts).
\<close>

fun split_T :: "string list \<Rightarrow> (string \<times> string) option" where
  "split_T [d, t] = (if t = [] \<or> last t \<noteq> CHR ''Z'' then None else Some (d, butlast t))"
| "split_T (d # _) = Some (d, ''00:00:00'')"
| "split_T [] = None"

fun split_date :: "string list \<Rightarrow> (string \<times> string \<times> string) option" where
  "split_date [y, mo, d] = Some (y, mo, d)"
| "split_date [y, mo] = Some (y, mo, ''01'')"
| "split_date [y] = Some (y, ''01'', ''01'')"
| "split_date _ = None"

fun split_time :: "string list \<Rightarrow> (string \<times> string \<times> string) option" where
  "split_time [h, mi, s] = Some (h, mi, s)"
| "split_time _ = None"

definition tolerant_datestamp_to_datetime :: "string \<Rightarrow> datetime option" where
  "tolerant_datestamp_to_datetime ds =
     (case split_T (py_split (CHR ''T'') ds) of
        None \<Rightarrow> None
      | Some (d, t) \<Rightarrow>
          (case split_date (py_split (CHR ''-'') d) of
             None \<Rightarrow> None
           | Some (ys, mos, dys) \<Rightarrow>
               (case split_time (py_split (CHR '':'') t) of
                  None \<Rightarrow> None
                | Some (hs, mis, ss) \<Rightarrow>
                    (case (py_int ys, py_int mos, py_int dys, py_int hs, py_int mis, py_int ss) of
                       (Some y, Some mo, Some dy, Some h, Some mi, Some s) \<Rightarrow>
                         mk_datetime y mo dy h mi s
                     | _ \<Rightarrow> None))))"

section \<open>datetime.isoformat()\<close>

fun isoformat :: "datetime \<Rightarrow> string" where
  "isoformat (DateTime y mo d h mi s us) =
     zpad 4 (nat y) @ CHR ''-'' # zpad 2 (nat mo) @ CHR ''-'' # zpad 2 (nat d) @
     CHR ''T'' # zpad 2 (nat h) @ CHR '':'' # zpad 2 (nat mi) @ CHR '':'' # zpad 2 (nat s) @
     (if us = 0 then [] else CHR ''.'' # zpad 6 (nat us))"

section \<open>Lemmas: digits, int() and the roundtrip\<close>

lemma dt_tuple_inj [simp]: "dt_tuple a = dt_tuple b \<longleftrightarrow> a = b"
  by (cases a; cases b) simp

lemma digit_char_props [simp]:
  assumes "k < 10"
  shows "digit_value (digit_char k) = k" and "is_digit (digit_char k)"
  using assms by (simp_all add: digit_value_def digit_char_def is_digit_def of_char_of)

lemma show_nat_digits: "c \<in> set (show_nat n) \<Longrightarrow> is_digit c"
proof (induction n rule: show_nat.induct)
  case (1 n)
  then show ?case by (subst (asm) show_nat.simps) (auto split: if_splits)
qed

lemma show_nat_not_Nil [simp]: "show_nat n \<noteq> []"
  by (subst show_nat.simps) simp

lemma digits_val_snoc [simp]: "digits_val (xs @ [c]) = 10 * digits_val xs + digit_value c"
  by (simp add: digits_val_def)

lemma digits_val_show_nat [simp]: "digits_val (show_nat n) = n"
proof (induction n rule: show_nat.induct)
  case (1 n)
  show ?case
  proof (cases "n < 10")
    case True
    then show ?thesis by (subst show_nat.simps) (simp add: digits_val_def)
  next
    case False
    with "1.IH" have "digits_val (show_nat (n div 10)) = n div 10" by simp
    with False show ?thesis by (subst show_nat.simps) simp
  qed
qed

lemma digits_val_zeros [simp]: "digits_val (replicate j (CHR ''0'') @ s) = digits_val s"
proof -
  have "foldl (\<lambda>n c. 10 * n + digit_value c) 0 (replicate j (CHR ''0'')) = 0"
    by (induction j) (simp_all add: digit_value_def)
  then show ?thesis by (simp add: digits_val_def)
qed

lemma zpad_digits: "c \<in> set (zpad k n) \<Longrightarrow> is_digit c"
  by (auto simp: zpad_def Let_def is_digit_def dest: show_nat_digits)

lemma not_digit_notin_zpad [simp]: "\<not> is_digit c \<Longrightarrow> c \<notin> set (zpad k n)"
  using zpad_digits by blast

lemma separators_not_digits [simp]:
  "\<not> is_digit (CHR ''T'')" "\<not> is_digit (CHR ''-'')" "\<not> is_digit (CHR '':'')"
  "\<not> is_digit (CHR ''Z'')" "\<not> is_digit (CHR ''+'')" "\<not> is_digit (CHR ''.'')"
  by (simp_all add: is_digit_def)

lemma digits_val_zpad [simp]: "digits_val (zpad k n) = n"
  by (simp add: zpad_def Let_def)

lemma zpad_not_Nil [simp]: "zpad k n \<noteq> []"
  by (simp add: zpad_def Let_def)

lemma digit_not_space: "is_digit c \<Longrightarrow> \<not> is_space c"
  by (auto simp: is_digit_def is_space_def)

lemma py_strip_no_space: "\<forall>c \<in> set s. \<not> is_space c \<Longrightarrow> py_strip s = s"
proof -
  assume a: "\<forall>c \<in> set s. \<not> is_space c"
  then have "dropWhile is_space s = s" by (cases s) simp_all
  moreover from a have "dropWhile is_space (rev s) = rev s" by (cases "rev s") auto
  ultimately show ?thesis by (simp add: py_strip_def)
qed

lemma py_int_digits:
  assumes "s \<noteq> []" and "\<forall>c \<in> set s. is_digit c"
  shows "py_int s = Some (int (digits_val s))"
proof -
  from assms(2) have "py_strip s = s" by (simp add: py_strip_no_space digit_not_space)
  moreover obtain c ds where s: "s = c # ds" using assms(1) by (cases s) auto
  moreover from assms(2) s have "c \<noteq> CHR ''-''" and "c \<noteq> CHR ''+''" by auto
  ultimately show ?thesis using assms(2) by (simp add: py_int_def list_all_iff)
qed

lemma py_int_zpad [simp]: "py_int (zpad k n) = Some (int n)"
  using py_int_digits [of "zpad k n"] zpad_digits by auto

lemma isoformat_roundtrip:
  assumes "dt_valid dt" and "dt_microsecond dt = 0"
  shows "tolerant_datestamp_to_datetime (isoformat dt @ ''Z'') = Some dt"
proof (cases dt)
  case (DateTime y mo d h mi s us)
  with assms have v: "dt_valid (DateTime y mo d h mi s 0)" and us: "us = 0" by simp_all
  from v have "0 \<le> y" "0 \<le> mo" "0 \<le> d" "0 \<le> h" "0 \<le> mi" "0 \<le> s" by simp_all
  with v DateTime us show ?thesis
    by (simp add: tolerant_datestamp_to_datetime_def py_split_append_nosep py_split_no_sep
        mk_datetime_def butlast_append last_append del: dt_valid.simps)
qed

lemma dt_valid_replace_microsecond:
  "dt_valid dt \<Longrightarrow> dt_valid (replace_microsecond dt 0) \<and> dt_microsecond (replace_microsecond dt 0) = 0"
  by (cases dt) simp

lemma mk_datetime_valid: "mk_datetime y mo dy h mi s = Some dt \<Longrightarrow> dt_valid dt \<and> dt_microsecond dt = 0"
  by (auto simp: mk_datetime_def Let_def split: if_splits)

lemma tolerant_valid:
  "tolerant_datestamp_to_datetime s = Some dt \<Longrightarrow> dt_valid dt \<and> dt_microsecond dt = 0"
  by (auto simp: tolerant_datestamp_to_datetime_def dest: mk_datetime_valid
      split: option.splits prod.splits)

lemma length_show_nat_le:
  "n < 10 ^ k \<Longrightarrow> 0 < k \<Longrightarrow> length (show_nat n) \<le> k"
proof (induction n arbitrary: k rule: show_nat.induct)
  case (1 n)
  show ?case
  proof (cases "n < 10")
    case True
    with "1.prems" show ?thesis by (subst show_nat.simps) simp
  next
    case False
    obtain j where k: "k = Suc j" using "1.prems"(2) by (cases k) auto
    have "0 < j"
    proof (rule ccontr)
      assume "\<not> 0 < j"
      with k "1.prems"(1) have "n < 10" by simp
      with False show False by simp
    qed
    moreover have "n div 10 < 10 ^ j" using "1.prems"(1) k by (simp add: div_less_iff_less_mult)
    ultimately have "length (show_nat (n div 10)) \<le> j" using "1.IH" False by blast
    with False k show ?thesis by (subst show_nat.simps) simp
  qed
qed

lemma length_zpad: "n < 10 ^ k \<Longrightarrow> 0 < k \<Longrightarrow> length (zpad k n) = k"
  using length_show_nat_le [of n k] by (simp add: zpad_def Let_def)

lemma length_isoformat:
  assumes "dt_valid dt" and "dt_microsecond dt = 0"
  shows "length (isoformat dt) = 19"
proof (cases dt)
  case (DateTime y mo d h mi s us)
  have m: "days_in_month y mo \<le> 31" by (simp add: days_in_month_def)
  have l4: "length (zpad 4 (nat y)) = 4" using assms DateTime by (intro length_zpad) auto
  have l2: "\<And>v. 0 \<le> v \<Longrightarrow> v < 100 \<Longrightarrow> length (zpad 2 (nat v)) = 2"
    by (intro length_zpad) auto
  from assms DateTime m show ?thesis by (simp add: l4 l2)
qed

end
