(* ===== verification/Store.thy ===== *)
theory Store
  imports DateTime
begin

text \<open>
  The data the view module reads and writes, and the two external stores of the spec.
  \<^item> \<open>oai_record\<close>, \<open>list_query\<close>, \<open>resumption_token\<close>: the \<open>OaiRecord\<close> rows, the
    \<open>queryParameters\<close> dict built in \<open>getListQuery\<close> and \<open>resumeRequest\<close> (keys
    \<open>format\<close>, \<open>set\<close>, \<open>from\<close>, \<open>until\<close>; a missing key is \<open>None\<close>), and the
    \<open>ResumptionToken\<close> model with the fields the view sets;
  \<^item> \<open>db\<close>: the database, with the records, the names of the \<open>OaiSet\<close> rows, the token
    rows in insertion order and the next primary key;
  \<^item> the Record Store: \<open>OaiRecord.objects.filter(**parameters)\<close> in timestamp order
    (the ordering the spec requires), \<open>order_by('timestamp').first()\<close> and
    \<open>OaiSet.objects.get(name=...)\<close>;
  \<^item> the Token Store: \<open>token.save()\<close> allocates the next primary key, \<open>token.genkey()\<close>
    derives the key from it through a key generator \<open>keygen\<close>, and
    \<open>ResumptionToken.objects.get(queryType=..., key=...)\<close> looks a row up.
  The models, the stores and \<open>genkey\<close> live in \<open>oai/models.py\<close>, which is not part of the
  sources: they follow the spec's interface (sections 3 and 6).
  \<open>ts_step\<close> is the token store as a state machine whose steps are the saves and key
  assignments of any number of concurrent requests, in any interleaving; the invariant
  \<open>tokens_wf\<close> holds in every reachable state and gives the uniqueness of live keys.
\<close>

section \<open>Rows and the database\<close>

record oai_record =
  rec_identifier :: string
  rec_timestamp :: datetime
  rec_format :: string
  rec_set :: "string option"

record list_query =
  q_format :: string
  q_set :: "string option"
  q_from :: "datetime option"
  q_until :: "datetime option"

record resumption_token =
  tok_id :: "nat option"
  tok_queryType :: string
  tok_metadataPrefix :: string
  tok_offset :: nat
  tok_cursor :: int
  tok_total_count :: nat
  tok_fro :: "datetime option"
  tok_until :: "datetime option"
  tok_set :: "string option"
  tok_key :: "string option"

record db =
  db_records :: "oai_record list"
  db_sets :: "string list"
  db_tokens :: "resumption_token list"
  db_next_id :: nat

text \<open>
  The service configuration (\<open>oai/settings.py\<close>, not part of the sources): the page size
  \<open>results_limit\<close>, the endpoint's path \<open>oai_endpoint_name\<close>, and the key generator
  that \<open>genkey\<close> applies to a token's primary key.
\<close>

record config =
  results_limit :: nat
  oai_endpoint_name :: string
  key_generator :: "nat \<Rightarrow> string"

section \<open>Record store\<close>

definition record_matches :: "list_query \<Rightarrow> oai_record \<Rightarrow> bool" where
  "record_matches q r \<longleftrightarrow>
     rec_format r = q_format q \<and>
     (case q_set q of None \<Rightarrow> True | Some s \<Rightarrow> rec_set r = Some s) \<and>
     (case q_from q of None \<Rightarrow> True | Some f \<Rightarrow> f \<le> rec_timestamp r) \<and>
     (case q_until q of None \<Rightarrow> True | Some u \<Rightarrow> rec_timestamp r \<le> u)"

definition objects_filter :: "list_query \<Rightarrow> db \<Rightarrow> oai_record list" where
  "objects_filter q d = sort_key rec_timestamp (filter (record_matches q) (db_records d))"

definition earliest_record :: "db \<Rightarrow> oai_record option" where
  "earliest_record d = (case sort_key rec_timestamp (db_records d) of [] \<Rightarrow> None | r # _ \<Rightarrow> Some r)"

definition set_get :: "string \<Rightarrow> db \<Rightarrow> exc + string" where
  "set_get name d = objects_get ''OaiSet'' (\<lambda>s. s = name) (db_sets d)"

section \<open>Token store\<close>

definition token_create :: "resumption_token \<Rightarrow> db \<Rightarrow> nat \<times> db" where
  "token_create t d =
     (db_next_id d,
      d\<lparr>db_tokens := db_tokens d @ [t\<lparr>tok_id := Some (db_next_id d)\<rparr>],
        db_next_id := Suc (db_next_id d)\<rparr>)"

definition token_assign_key :: "(nat \<Rightarrow> string) \<Rightarrow> nat \<Rightarrow> db \<Rightarrow> string \<times> db" where
  "token_assign_key keygen i d =
     (keygen i,
      d\<lparr>db_tokens := map (\<lambda>t. if tok_id t = Some i then t\<lparr>tok_key := Some (keygen i)\<rparr> else t)
                          (db_tokens d)\<rparr>)"

definition token_lookup :: "string \<Rightarrow> string \<Rightarrow> db \<Rightarrow> exc + resumption_token" where
  "token_lookup qt k d =
     objects_get ''ResumptionToken'' (\<lambda>t. tok_queryType t = qt \<and> tok_key t = Some k) (db_tokens d)"

text \<open>
  Every row has a primary key below the next one, the keys are distinct, and a row's key
  is unset or the one generated from its primary key.
\<close>

definition token_row_ok :: "(nat \<Rightarrow> string) \<Rightarrow> nat \<Rightarrow> resumption_token \<Rightarrow> bool" where
  "token_row_ok keygen n t \<longleftrightarrow>
     (case tok_id t of
        None \<Rightarrow> False
      | Some i \<Rightarrow> i < n \<and> (tok_key t = None \<or> tok_key t = Some (keygen i)))"

definition tokens_wf :: "(nat \<Rightarrow> string) \<Rightarrow> db \<Rightarrow> bool" where
  "tokens_wf keygen d \<longleftrightarrow>
     distinct (map tok_id (db_tokens d)) \<and> list_all (token_row_ok keygen (db_next_id d)) (db_tokens d)"

text \<open>Every stored token has its key, so every stored token can be resumed.\<close>

definition tokens_keyed :: "db \<Rightarrow> bool" where
  "tokens_keyed d \<longleftrightarrow> list_all (\<lambda>t. tok_key t \<noteq> None) (db_tokens d)"

inductive ts_step :: "(nat \<Rightarrow> string) \<Rightarrow> db \<Rightarrow> db \<Rightarrow> bool" for keygen where
  save: "tok_key t = None \<Longrightarrow> ts_step keygen d (snd (token_create t d))"
| genkey: "ts_step keygen d (snd (token_assign_key keygen i d))"

text \<open>
  The token store seen as a map from a verb and a key to the token, the contract the views
  rely on: \<open>ResumptionToken.objects.get(queryType=..., key=...)\<close> reads it, and
  \<open>save()\<close> followed by \<open>genkey()\<close> inserts one entry under a fresh key.
\<close>

definition token_index :: "db \<Rightarrow> string \<times> string \<Rightarrow> resumption_token option" where
  "token_index d =
     map_of (concat (map (\<lambda>t. case tok_key t of None \<Rightarrow> [] | Some k \<Rightarrow> [((tok_queryType t, k), t)])
                         (db_tokens d)))"

section \<open>Lemmas\<close>

lemma objects_filter_sorted: "sorted (map rec_timestamp (objects_filter q d))"
  by (simp add: objects_filter_def)

lemma set_objects_filter: "set (objects_filter q d) = {r \<in> set (db_records d). record_matches q r}"
  by (auto simp: objects_filter_def)

lemma earliest_record_le:
  assumes "earliest_record d = Some r" and "r' \<in> set (db_records d)"
  shows "rec_timestamp r \<le> rec_timestamp r'"
proof -
  obtain rs where s: "sort_key rec_timestamp (db_records d) = r # rs"
    using assms(1) by (auto simp: earliest_record_def split: list.splits)
  have "sorted (map rec_timestamp (r # rs))" by (metis s sorted_sort_key)
  moreover have "r' \<in> set (r # rs)" using assms(2) by (metis s set_sort)
  ultimately show ?thesis by auto
qed

lemma sort_key_Nil_iff [simp]: "sort_key f xs = [] \<longleftrightarrow> xs = []"
  by (metis length_0_conv length_sort)

lemma earliest_record_None: "earliest_record d = None \<longleftrightarrow> db_records d = []"
  by (auto simp: earliest_record_def split: list.splits)

lemma token_create_frame [simp]:
  "db_records (snd (token_create t d)) = db_records d"
  "db_sets (snd (token_create t d)) = db_sets d"
  by (simp_all add: token_create_def)

lemma token_assign_key_frame [simp]:
  "db_records (snd (token_assign_key keygen i d)) = db_records d"
  "db_sets (snd (token_assign_key keygen i d)) = db_sets d"
  "db_next_id (snd (token_assign_key keygen i d)) = db_next_id d"
  by (simp_all add: token_assign_key_def)

lemma objects_filter_token_ops [simp]:
  "objects_filter q (snd (token_create t d)) = objects_filter q d"
  "objects_filter q (snd (token_assign_key keygen i d)) = objects_filter q d"
  by (simp_all add: objects_filter_def)

lemma token_row_ok_mono: "token_row_ok keygen n t \<Longrightarrow> n \<le> m \<Longrightarrow> token_row_ok keygen m t"
  by (auto simp: token_row_ok_def split: option.splits)

lemma tokens_wf_create:
  assumes "tokens_wf keygen d" and "tok_key t = None"
  shows "tokens_wf keygen (snd (token_create t d))"
proof -
  from assms(1) have "Some (db_next_id d) \<notin> set (map tok_id (db_tokens d))"
    by (auto simp: tokens_wf_def list_all_iff token_row_ok_def split: option.splits)
  with assms show ?thesis
    by (auto simp: tokens_wf_def token_create_def list_all_iff token_row_ok_def
        split: option.splits)
qed

lemma map_tok_id_assign [simp]:
  "map tok_id (db_tokens (snd (token_assign_key keygen i d))) = map tok_id (db_tokens d)"
  by (simp add: token_assign_key_def comp_def)

lemma tokens_wf_assign:
  assumes "tokens_wf keygen d"
  shows "tokens_wf keygen (snd (token_assign_key keygen i d))"
proof -
  let ?d' = "snd (token_assign_key keygen i d)"
  have "distinct (map tok_id (db_tokens ?d'))" using assms by (simp add: tokens_wf_def)
  moreover have "list_all (token_row_ok keygen (db_next_id ?d')) (db_tokens ?d')"
    using assms
    by (auto simp: tokens_wf_def token_assign_key_def list_all_iff token_row_ok_def
        split: option.splits)
  ultimately show ?thesis by (simp add: tokens_wf_def)
qed

lemma tokens_wf_unique_id:
  assumes "tokens_wf keygen d" and "t1 \<in> set (db_tokens d)" and "t2 \<in> set (db_tokens d)"
    and "tok_id t1 = tok_id t2"
  shows "t1 = t2"
  using assms by (auto simp: tokens_wf_def dest: inj_onD [OF distinct_map [THEN iffD1, THEN conjunct2]])

lemma tokens_wf_key_id:
  assumes "tokens_wf keygen d" and "t \<in> set (db_tokens d)" and "tok_key t = Some k"
  obtains i where "tok_id t = Some i" and "k = keygen i" and "i < db_next_id d"
  using assms by (auto simp: tokens_wf_def list_all_iff token_row_ok_def split: option.splits)

lemma tokens_wf_keys_unique:
  assumes "tokens_wf keygen d" and "inj keygen"
    and "t1 \<in> set (db_tokens d)" and "t2 \<in> set (db_tokens d)"
    and "tok_key t1 = Some k" and "tok_key t2 = Some k"
  shows "t1 = t2"
proof -
  obtain i1 where i1: "tok_id t1 = Some i1" "k = keygen i1"
    using assms(1,3,5) by (rule tokens_wf_key_id)
  obtain i2 where i2: "tok_id t2 = Some i2" "k = keygen i2"
    using assms(1,4,6) by (rule tokens_wf_key_id)
  from i1(2) i2(2) assms(2) have "i1 = i2" by (simp add: inj_eq)
  with i1 i2 have "tok_id t1 = tok_id t2" by simp
  with assms(1,3,4) show ?thesis by (rule tokens_wf_unique_id)
qed

lemma token_lookup_found:
  assumes "tokens_wf keygen d" and "inj keygen"
    and "t \<in> set (db_tokens d)" and "tok_key t = Some k"
  shows "token_lookup (tok_queryType t) k d = Inr t"
proof -
  from assms(1) have d: "distinct (db_tokens d)" by (simp add: tokens_wf_def distinct_map)
  have u: "\<forall>t' \<in> set (db_tokens d).
      (tok_queryType t' = tok_queryType t \<and> tok_key t' = Some k) \<longleftrightarrow> t' = t"
    using assms tokens_wf_keys_unique by blast
  show ?thesis unfolding token_lookup_def by (rule objects_get_unique [OF assms(3) d u])
qed

lemma ts_step_tokens_wf: "ts_step keygen d d' \<Longrightarrow> tokens_wf keygen d \<Longrightarrow> tokens_wf keygen d'"
proof (induction rule: ts_step.induct)
  case (save t d)
  then show ?case by (simp add: tokens_wf_create)
next
  case (genkey d i)
  then show ?case by (simp add: tokens_wf_assign)
qed

lemma ts_steps_tokens_wf:
  assumes "(ts_step keygen)\<^sup>*\<^sup>* d0 d" and "tokens_wf keygen d0"
  shows "tokens_wf keygen d"
  using assms by (induction rule: rtranclp_induct) (auto intro: ts_step_tokens_wf)

lemma ts_step_records: "ts_step keygen d d' \<Longrightarrow> db_records d' = db_records d \<and> db_sets d' = db_sets d"
  by (induction rule: ts_step.induct) simp_all

lemma ts_steps_records:
  "(ts_step keygen)\<^sup>*\<^sup>* d0 d \<Longrightarrow> db_records d = db_records d0 \<and> db_sets d = db_sets d0"
  by (induction rule: rtranclp_induct) (auto dest: ts_step_records)

lemma ts_step_keeps_keyed:
  assumes "ts_step kg d d'" and "tokens_wf kg d" and "t \<in> set (db_tokens d)" and "tok_key t \<noteq> None"
  shows "t \<in> set (db_tokens d')"
  using assms
proof (induction rule: ts_step.induct)
  case (save t' d)
  then show ?case by (simp add: token_create_def)
next
  case (genkey d i)
  then obtain j where "tok_id t = Some j" and "tok_key t = Some (kg j)"
    by (auto simp: tokens_wf_def list_all_iff token_row_ok_def split: option.splits)
  then have "(if tok_id t = Some i then t\<lparr>tok_key := Some (kg i)\<rparr> else t) = t" by auto
  with genkey.prems(2) show ?case
    by (auto simp: token_assign_key_def image_iff intro: bexI [where x = t])
qed

lemma ts_steps_keep_keyed:
  assumes "(ts_step kg)\<^sup>*\<^sup>* d d'" and "tokens_wf kg d" and "t \<in> set (db_tokens d)" and "tok_key t \<noteq> None"
  shows "t \<in> set (db_tokens d')"
  using assms
proof (induction rule: rtranclp_induct)
  case (step d1 d2)
  then have "tokens_wf kg d1" and "t \<in> set (db_tokens d1)" by (auto intro: ts_steps_tokens_wf)
  with step show ?case by (blast intro: ts_step_keeps_keyed)
qed simp

lemma objects_filter_records: "db_records d1 = db_records d \<Longrightarrow> objects_filter q d1 = objects_filter q d"
  by (simp add: objects_filter_def)

lemma earliest_record_in:
  assumes "earliest_record d = Some r"
  shows "r \<in> set (db_records d)"
proof -
  obtain rs where s: "sort_key rec_timestamp (db_records d) = r # rs"
    using assms by (auto simp: earliest_record_def split: list.splits)
  have "r \<in> set (sort_key rec_timestamp (db_records d))" by (simp add: s)
  then show ?thesis by simp
qed

lemma token_index_SomeD:
  assumes "token_index d (qt, k) = Some t"
  shows "t \<in> set (db_tokens d) \<and> tok_queryType t = qt \<and> tok_key t = Some k"
proof -
  from assms have "((qt, k), t) \<in> set (concat (map (\<lambda>t. case tok_key t of None \<Rightarrow> []
      | Some k \<Rightarrow> [((tok_queryType t, k), t)]) (db_tokens d)))"
    unfolding token_index_def by (rule map_of_SomeD)
  then show ?thesis by (auto split: option.splits)
qed

lemma token_index_None_iff:
  "token_index d (qt, k) = None \<longleftrightarrow> (\<forall>t \<in> set (db_tokens d). tok_queryType t = qt \<longrightarrow> tok_key t \<noteq> Some k)"
  by (force simp: token_index_def map_of_eq_None_iff split: option.splits)

lemma token_index_Some_iff:
  assumes "tokens_wf keygen d" and "inj keygen"
  shows "token_index d (qt, k) = Some t \<longleftrightarrow>
    t \<in> set (db_tokens d) \<and> tok_queryType t = qt \<and> tok_key t = Some k"
proof
  assume "token_index d (qt, k) = Some t"
  then show "t \<in> set (db_tokens d) \<and> tok_queryType t = qt \<and> tok_key t = Some k"
    by (rule token_index_SomeD)
next
  assume t: "t \<in> set (db_tokens d) \<and> tok_queryType t = qt \<and> tok_key t = Some k"
  then obtain t' where t': "token_index d (qt, k) = Some t'"
    using token_index_None_iff [of d qt k] by fastforce
  then have "t' \<in> set (db_tokens d) \<and> tok_queryType t' = qt \<and> tok_key t' = Some k"
    by (rule token_index_SomeD)
  with t have "t' = t" using tokens_wf_keys_unique [OF assms] by blast
  with t' show "token_index d (qt, k) = Some t" by simp
qed

lemma tokens_wf_distinct: "tokens_wf keygen d \<Longrightarrow> distinct (db_tokens d)"
  by (simp add: tokens_wf_def distinct_map)

lemma token_index_fresh:
  assumes "tokens_wf keygen d" and "inj keygen"
  shows "token_index d (qt, keygen (db_next_id d)) = None"
proof -
  have "tok_key t \<noteq> Some (keygen (db_next_id d))" if t: "t \<in> set (db_tokens d)" for t
  proof
    assume "tok_key t = Some (keygen (db_next_id d))"
    then obtain i where "keygen (db_next_id d) = keygen i" and "i < db_next_id d"
      using tokens_wf_key_id [OF assms(1) t] by metis
    with assms(2) show False by (auto dest: injD)
  qed
  then show ?thesis by (simp add: token_index_None_iff)
qed

lemma token_index_append:
  "token_index (d\<lparr>db_tokens := db_tokens d @ [t]\<rparr>) =
    (case tok_key t of None \<Rightarrow> Map.empty | Some k \<Rightarrow> [(tok_queryType t, k) \<mapsto> t]) ++ token_index d"
  by (simp add: token_index_def map_of_append split: option.splits)

lemma token_create_assign_tokens:
  assumes "tokens_wf keygen d"
  shows "db_tokens (snd (token_assign_key keygen (db_next_id d) (snd (token_create t d)))) =
    db_tokens d @ [t\<lparr>tok_id := Some (db_next_id d), tok_key := Some (keygen (db_next_id d))\<rparr>]"
proof -
  have "tok_id t' \<noteq> Some (db_next_id d)" if "t' \<in> set (db_tokens d)" for t'
    using assms that by (auto simp: tokens_wf_def list_all_iff token_row_ok_def split: option.splits)
  then have "map (\<lambda>t'. if tok_id t' = Some (db_next_id d)
      then t'\<lparr>tok_key := Some (keygen (db_next_id d))\<rparr> else t') (db_tokens d) = db_tokens d"
    by (simp add: map_idI)
  then show ?thesis by (simp add: token_create_def token_assign_key_def)
qed

lemma tokens_keyed_create_assign:
  assumes "tokens_wf keygen d" and "tokens_keyed d"
  shows "tokens_keyed (snd (token_assign_key keygen (db_next_id d) (snd (token_create t d))))"
  using assms(2) by (simp add: tokens_keyed_def token_create_assign_tokens [OF assms(1)])

lemma token_index_create_assign:
  assumes "tokens_wf keygen d" and "inj keygen"
  shows "token_index d (tok_queryType t, keygen (db_next_id d)) = None \<and>
    token_index (snd (token_assign_key keygen (db_next_id d) (snd (token_create t d)))) =
      (token_index d)((tok_queryType t, keygen (db_next_id d)) \<mapsto>
         t\<lparr>tok_id := Some (db_next_id d), tok_key := Some (keygen (db_next_id d))\<rparr>)"
proof
  show fresh: "token_index d (tok_queryType t, keygen (db_next_id d)) = None"
    by (rule token_index_fresh [OF assms])
  let ?d' = "snd (token_assign_key keygen (db_next_id d) (snd (token_create t d)))"
  let ?t' = "t\<lparr>tok_id := Some (db_next_id d), tok_key := Some (keygen (db_next_id d))\<rparr>"
  have "token_index ?d' = token_index (d\<lparr>db_tokens := db_tokens d @ [?t']\<rparr>)"
    by (simp add: token_index_def token_create_assign_tokens [OF assms(1)])
  also have "\<dots> = [(tok_queryType t, keygen (db_next_id d)) \<mapsto> ?t'] ++ token_index d"
    by (simp add: token_index_append)
  also have "\<dots> = (token_index d)((tok_queryType t, keygen (db_next_id d)) \<mapsto> ?t')"
    using fresh by (auto simp: map_add_def fun_eq_iff split: option.splits)
  finally show "token_index ?d' = (token_index d)((tok_queryType t, keygen (db_next_id d)) \<mapsto> ?t')" .
qed

lemma token_lookup_Inl:
  assumes "tokens_wf keygen d" and "inj keygen" and "token_lookup qt k d = Inl e"
  shows "e = DoesNotExist ''ResumptionToken''"
  using objects_get_Inl [OF assms(3) [unfolded token_lookup_def] tokens_wf_distinct [OF assms(1)]]
    tokens_wf_keys_unique [OF assms(1,2)] by blast

lemma set_get_Inl:
  assumes "distinct (db_sets d)" and "set_get s d = Inl e"
  shows "e = DoesNotExist ''OaiSet''"
  using objects_get_Inl [OF assms(2) [unfolded set_get_def] assms(1)] by blast

text \<open>
  C25: with a well formed store and an injective key generator, looking a token up by verb
  and key is reading the abstract map \<open>token_index\<close>: the token stored under that pair,
  or \<open>DoesNotExist\<close> when there is none (never \<open>MultipleObjectsReturned\<close>).
\<close>

theorem token_lookup_refines:
  assumes "tokens_wf keygen d" and "inj keygen"
  shows "token_lookup qt k d =
    (case token_index d (qt, k) of
       Some t \<Rightarrow> Inr t
     | None \<Rightarrow> Inl (DoesNotExist ''ResumptionToken''))"
proof (cases "token_index d (qt, k)")
  case None
  then have "\<not> (\<exists>t \<in> set (db_tokens d). tok_queryType t = qt \<and> tok_key t = Some k)"
    by (simp add: token_index_None_iff)
  with None show ?thesis by (simp add: token_lookup_def objects_get_none)
next
  case (Some t)
  with assms have t: "t \<in> set (db_tokens d)" "tok_queryType t = qt" "tok_key t = Some k"
    by (simp_all add: token_index_Some_iff)
  have "\<forall>t' \<in> set (db_tokens d). (tok_queryType t' = qt \<and> tok_key t' = Some k) \<longleftrightarrow> t' = t"
    using t tokens_wf_keys_unique [OF assms] by blast
  then have "token_lookup qt k d = Inr t"
    unfolding token_lookup_def by (rule objects_get_unique [OF t(1) tokens_wf_distinct [OF assms(1)]])
  with Some show ?thesis by simp
qed

end
