(* ===== verification/Response.thy ===== *)
theory Response
  imports Store
begin

text \<open>
  The response side of a view, shared by every handler of \<open>src/oai/views.py\<close>.
  \<^item> \<open>context\<close>: the template context dict that \<open>endpoint\<close> creates and the handlers fill
    in (\<open>thisUrl\<close>, \<open>timestamp\<close>, \<open>params\<close>, \<open>baseURL\<close>, \<open>earliestDatestamp\<close>,
    \<open>matches\<close>, \<open>token\<close>, \<open>errorCode\<close>, \<open>errorMessage\<close>); a key not yet set is \<open>None\<close>.
  \<^item> \<open>response\<close>: what a view hands back to Django: a rendered template with its
    context, an exception that escapes the view (Django answers it with a server error),
    or \<open>None\<close> (a view that returns nothing).
  \<^item> \<open>formatError\<close>: the Error Formatter, which renders \<open>oai/error.xml\<close> with the code
    and the message added to the context.
  The XML templates themselves are outside the model: a response is the template's name
  and the context it is rendered with.
\<close>

datatype earliest = EarliestDatetime datetime | EarliestString string

record oai_context =
  ctx_thisUrl :: string
  ctx_timestamp :: string
  ctx_params :: "(string \<times> string) list option"
  ctx_baseURL :: "string option"
  ctx_earliestDatestamp :: "earliest option"
  ctx_matches :: "oai_record list option"
  ctx_token :: "resumption_token option"
  ctx_errorCode :: "string option"
  ctx_errorMessage :: "string option"

datatype response = Render string oai_context | Crash exc | NoResponse

definition formatError :: "string \<Rightarrow> string \<Rightarrow> oai_context \<Rightarrow> response" where
  "formatError errorCode errorMessage ctx =
     Render ''oai/error.xml'' (ctx\<lparr>ctx_errorCode := Some errorCode, ctx_errorMessage := Some errorMessage\<rparr>)"

text \<open>The closed error taxonomy of the spec (section 4.4).\<close>

definition oai_error_codes :: "string list" where
  "oai_error_codes = [''badVerb'', ''badArgument'', ''badResumptionToken'']"

text \<open>Reading a response: its error, its page of records and its resumption token.\<close>

fun resp_error :: "response \<Rightarrow> (string \<times> string) option" where
  "resp_error (Render tpl c) =
     (if tpl = ''oai/error.xml'' then
        (case (ctx_errorCode c, ctx_errorMessage c) of
           (Some code, Some msg) \<Rightarrow> Some (code, msg) | _ \<Rightarrow> None)
      else None)"
| "resp_error _ = None"

fun resp_matches :: "response \<Rightarrow> oai_record list option" where
  "resp_matches (Render tpl c) = ctx_matches c"
| "resp_matches _ = None"

fun resp_token :: "response \<Rightarrow> resumption_token option" where
  "resp_token (Render tpl c) = ctx_token c"
| "resp_token _ = None"

section \<open>Lemmas\<close>

lemma formatError_error [simp]:
  "resp_error (formatError code msg ctx) = Some (code, msg)"
  by (simp add: formatError_def)

lemma formatError_fields [simp]:
  "resp_matches (formatError code msg ctx) = ctx_matches ctx"
  "resp_token (formatError code msg ctx) = ctx_token ctx"
  by (simp_all add: formatError_def)

end
