(* ===== verification/Validator.thy ===== *)
theory Validator
  imports Response
begin

text \<open>
  The Argument Validator: \<open>getListQuery\<close> of \<open>src/oai/views.py\<close> (lines 64--118), which
  turns the GET parameters of a \<open>ListRecords\<close> or \<open>ListIdentifiers\<close> request into the
  \<open>queryParameters\<close> dict (here a \<open>list_query\<close>) or an error page.
  The Python function returns the pair \<open>(queryParameters, None)\<close> or \<open>(None, error)\<close>;
  the model returns \<open>Inr (Inr q)\<close> or \<open>Inr (Inl error)\<close>, and \<open>Inl e\<close> for an
  exception that escapes it (\<open>OaiSet.objects.get\<close> raises when the set does not exist).
  The rules run in the source's order and stop at the first failure: \<open>metadataPrefix\<close>,
  \<open>set\<close>, \<open>from\<close>, \<open>until\<close>, the order of the two dates, then the leftover keys,
  of which the first one in the dict's order is reported.
\<close>

text \<open>The arguments a list request may carry (line 114 drops \<open>verb\<close>), and what is
  left of the request's dict after lines 76--114 have popped them.\<close>

definition list_args :: "string list" where
  "list_args = [''metadataPrefix'', ''set'', ''from'', ''until'', ''verb'']"

definition leftover_args :: "querydict \<Rightarrow> (string \<times> string) list" where
  "leftover_args get = filter (\<lambda>p. fst p \<notin> set list_args) (qd_dict get)"

definition list_query_ok :: "list_query \<Rightarrow> bool" where
  "list_query_ok q \<longleftrightarrow> (case (q_from q, q_until q) of (Some f, Some u) \<Rightarrow> f \<le> u | _ \<Rightarrow> True)"

text \<open>Lines 92--98 and 101--107: parse an optional date argument.\<close>

definition parse_date_param :: "string \<Rightarrow> string option \<Rightarrow> oai_context \<Rightarrow> response + datetime option" where
  "parse_date_param name v ctx =
     (case truthy_value v of
        None \<Rightarrow> Inr None
      | Some s \<Rightarrow>
          (case tolerant_datestamp_to_datetime s of
             None \<Rightarrow> Inl (formatError ''badArgument''
                       (''The parameter \"'' @ name @ ''\" expects a valid date, not \"'' @ s @
                        [CHR 0x27] @ ''.'') ctx)
           | Some dt \<Rightarrow> Inr (Some dt)))"

text \<open>Lines 83--89: a set name must name an \<open>OaiSet\<close> row; \<open>get\<close> raises otherwise.\<close>

definition check_set :: "string option \<Rightarrow> db \<Rightarrow> exc + string option" where
  "check_set v d =
     (case truthy_value v of
        None \<Rightarrow> Inr None
      | Some s \<Rightarrow> (case set_get s d of Inl e \<Rightarrow> Inl e | Inr matchingSet \<Rightarrow> Inr (Some s)))"

definition getListQuery :: "oai_context \<Rightarrow> querydict \<Rightarrow> db \<Rightarrow> exc + (response + list_query)" where
  "getListQuery ctx get d =
     (let (metadataPrefix, gp) = dict_pop ''metadataPrefix'' (qd_dict get) in
      case truthy_value metadataPrefix of
        None \<Rightarrow> Inr (Inl (formatError ''badArgument'' ''The metadataPrefix argument is required.'' ctx))
      | Some fmt \<Rightarrow>
          (let (setv, gp) = dict_pop ''set'' gp in
           case check_set setv d of
             Inl e \<Rightarrow> Inl e
           | Inr qset \<Rightarrow>
               (let (fromv, gp) = dict_pop ''from'' gp in
                case parse_date_param ''from'' fromv ctx of
                  Inl err \<Rightarrow> Inr (Inl err)
                | Inr qfrom \<Rightarrow>
                    (let (untilv, gp) = dict_pop ''until'' gp in
                     case parse_date_param ''until'' untilv ctx of
                       Inl err \<Rightarrow> Inr (Inl err)
                     | Inr quntil \<Rightarrow>
                         (if (case (qfrom, quntil) of (Some f, Some u) \<Rightarrow> u < f | _ \<Rightarrow> False)
                          then Inr (Inl (formatError ''badArgument''
                                  ''\"from\" should not be after \"until\".'' ctx))
                          else
                            (case snd (dict_pop ''verb'' gp) of
                               (key, _) # _ \<Rightarrow>
                                 Inr (Inl (formatError ''badArgument''
                                   (''The argument \"'' @ key @ ''\" is illegal.'') ctx))
                             | [] \<Rightarrow>
                                 Inr (Inr \<lparr>q_format = fmt, q_set = qset, q_from = qfrom,
                                            q_until = quntil\<rparr>)))))))"

text \<open>
  The parameters a harvester sends for a list query: the verb, the prefix, and the set and
  the dates when the query has them, each date printed by \<open>isoformat\<close> with a
  \<open>Z\<close>. A date can be sent this way when it is valid and has no microseconds.
\<close>

definition query_params :: "string \<Rightarrow> list_query \<Rightarrow> querydict" where
  "query_params verb q =
     [(''verb'', verb), (''metadataPrefix'', q_format q)] @
     (case q_set q of None \<Rightarrow> [] | Some s \<Rightarrow> [(''set'', s)]) @
     (case q_from q of None \<Rightarrow> [] | Some f \<Rightarrow> [(''from'', isoformat f @ ''Z'')]) @
     (case q_until q of None \<Rightarrow> [] | Some u \<Rightarrow> [(''until'', isoformat u @ ''Z'')])"

definition date_param_ok :: "datetime option \<Rightarrow> bool" where
  "date_param_ok v = (case v of None \<Rightarrow> True | Some t \<Rightarrow> dt_valid t \<and> dt_microsecond t = 0)"

text \<open>
  The typed list query the spec asks the validator to produce: a non-empty format, a set
  that exists, dates that are valid \<open>datetime\<close> values at whole seconds, in order.
\<close>

definition query_typed :: "db \<Rightarrow> list_query \<Rightarrow> bool" where
  "query_typed d q \<longleftrightarrow>
     q_format q \<noteq> [] \<and>
     (case q_set q of None \<Rightarrow> True | Some s \<Rightarrow> s \<noteq> [] \<and> s \<in> set (db_sets d)) \<and>
     date_param_ok (q_from q) \<and> date_param_ok (q_until q) \<and> list_query_ok q"

section \<open>Lemmas\<close>

lemma pops_leftover:
  "snd (dict_pop ''verb'' (snd (dict_pop ''until'' (snd (dict_pop ''from''
     (snd (dict_pop ''set'' (snd (dict_pop ''metadataPrefix'' d))))))))) =
   filter (\<lambda>p. fst p \<notin> set list_args) d"
  by (simp add: dict_pop_def list_args_def conj_commute conj_left_commute)

lemma map_of_pops:
  "map_of (qd_dict get) ''metadataPrefix'' = qd_get ''metadataPrefix'' get"
  "map_of (snd (dict_pop ''metadataPrefix'' (qd_dict get))) ''set'' = qd_get ''set'' get"
  "map_of (snd (dict_pop ''set'' (snd (dict_pop ''metadataPrefix'' (qd_dict get))))) ''from'' = qd_get ''from'' get"
  "map_of (snd (dict_pop ''from'' (snd (dict_pop ''set'' (snd (dict_pop ''metadataPrefix'' (qd_dict get))))))) ''until'' = qd_get ''until'' get"
  by (simp_all add: map_of_dict_pop map_of_qd_dict qd_get_def)

lemma getListQuery_eq:
  "getListQuery ctx get d =
     (case truthy_value (qd_get ''metadataPrefix'' get) of
        None \<Rightarrow> Inr (Inl (formatError ''badArgument'' ''The metadataPrefix argument is required.'' ctx))
      | Some fmt \<Rightarrow>
          (case check_set (qd_get ''set'' get) d of
             Inl e \<Rightarrow> Inl e
           | Inr qset \<Rightarrow>
               (case parse_date_param ''from'' (qd_get ''from'' get) ctx of
                  Inl err \<Rightarrow> Inr (Inl err)
                | Inr qfrom \<Rightarrow>
                    (case parse_date_param ''until'' (qd_get ''until'' get) ctx of
                       Inl err \<Rightarrow> Inr (Inl err)
                     | Inr quntil \<Rightarrow>
                         (if (case (qfrom, quntil) of (Some f, Some u) \<Rightarrow> u < f | _ \<Rightarrow> False)
                          then Inr (Inl (formatError ''badArgument''
                                  ''\"from\" should not be after \"until\".'' ctx))
                          else
                            (case leftover_args get of
                               (key, _) # _ \<Rightarrow>
                                 Inr (Inl (formatError ''badArgument''
                                   (''The argument \"'' @ key @ ''\" is illegal.'') ctx))
                             | [] \<Rightarrow>
                                 Inr (Inr \<lparr>q_format = fmt, q_set = qset, q_from = qfrom,
                                            q_until = quntil\<rparr>)))))))"
  unfolding getListQuery_def leftover_args_def
  by (simp only: Let_def split_def dict_pop_fst map_of_pops pops_leftover)

lemma tolerant_Nil [simp]: "tolerant_datestamp_to_datetime [] = None"
  by (simp add: tolerant_datestamp_to_datetime_def py_int_def py_strip_def)

lemma parse_date_param_None [simp]: "parse_date_param name None ctx = Inr None"
  by (simp add: parse_date_param_def)

lemma parse_date_param_Some:
  "tolerant_datestamp_to_datetime s = Some dt \<Longrightarrow> parse_date_param name (Some s) ctx = Inr (Some dt)"
  by (auto simp: parse_date_param_def)

lemma leftover_args_keys:
  "fst ` set (leftover_args get) = {k \<in> fst ` set get. k \<notin> set list_args}"
proof -
  have "fst ` set (leftover_args get) = {k \<in> fst ` set (qd_dict get). k \<notin> set list_args}"
    by (auto simp: leftover_args_def)
  then show ?thesis by (simp add: keys_qd_dict)
qed

lemma query_params_get:
  "qd_get ''metadataPrefix'' (query_params v q) = Some (q_format q)"
  "qd_get ''set'' (query_params v q) = q_set q"
  "qd_get ''from'' (query_params v q) = map_option (\<lambda>f. isoformat f @ ''Z'') (q_from q)"
  "qd_get ''until'' (query_params v q) = map_option (\<lambda>u. isoformat u @ ''Z'') (q_until q)"
  by (cases "q_set q"; cases "q_from q"; cases "q_until q"; simp add: query_params_def qd_get_def)+

lemma query_params_leftover: "leftover_args (query_params v q) = []"
proof -
  have "fst ` set (query_params v q) \<subseteq> set list_args"
    by (auto simp: query_params_def list_args_def split: option.splits)
  then have "\<forall>p \<in> set (qd_dict (query_params v q)). fst p \<in> set list_args"
    using keys_qd_dict [of "query_params v q"] by blast
  then show ?thesis by (simp add: leftover_args_def filter_empty_conv)
qed

lemma parse_date_param_roundtrip:
  "date_param_ok v \<Longrightarrow> parse_date_param name (map_option (\<lambda>t. isoformat t @ ''Z'') v) ctx = Inr v"
  by (cases v) (simp_all add: date_param_ok_def parse_date_param_Some isoformat_roundtrip)

lemma parse_date_param_ok: "parse_date_param name v ctx = Inr r \<Longrightarrow> date_param_ok r"
  by (auto simp: parse_date_param_def date_param_ok_def dest: tolerant_valid split: option.splits)

lemma check_set_ok:
  "check_set v d = Inr r \<Longrightarrow> (case r of None \<Rightarrow> True | Some s \<Rightarrow> s \<noteq> [] \<and> s \<in> set (db_sets d))"
  by (auto simp: check_set_def set_get_def objects_get_Inr_iff truthy_value_Some
      split: option.splits sum.splits dest!: filter_singleton_mem)

text \<open>
  C7: A request without a non-empty metadataPrefix is answered with badArgument and
  the fixed message, whatever else it carries.
\<close>

theorem getListQuery_missing_metadataPrefix:
  assumes "truthy_value (qd_get ''metadataPrefix'' get) = None"
  shows "getListQuery ctx get d =
    Inr (Inl (formatError ''badArgument'' ''The metadataPrefix argument is required.'' ctx))"
  using assms by (simp add: getListQuery_eq)

text \<open>
  C4: When both dates parse and from is after until, getListQuery answers badArgument
  with the fixed message about from and until.
\<close>

theorem getListQuery_from_after_until:
  assumes "truthy_value (qd_get ''metadataPrefix'' get) = Some fmt"
    and "check_set (qd_get ''set'' get) d = Inr qs"
    and "qd_get ''from'' get = Some fs" and "tolerant_datestamp_to_datetime fs = Some f"
    and "qd_get ''until'' get = Some us" and "tolerant_datestamp_to_datetime us = Some u"
    and "u < f"
  shows "getListQuery ctx get d =
    Inr (Inl (formatError ''badArgument'' ''\"from\" should not be after \"until\".'' ctx))"
  using assms by (simp add: getListQuery_eq parse_date_param_Some)

text \<open>
  C5: When the prefix is present, the set is known or absent, both dates are absent or
  parse in order, and no other argument is given, getListQuery returns the typed list
  query built from exactly these values.
\<close>

theorem getListQuery_success:
  assumes "truthy_value (qd_get ''metadataPrefix'' get) = Some fmt"
    and "check_set (qd_get ''set'' get) d = Inr qs"
    and "parse_date_param ''from'' (qd_get ''from'' get) ctx = Inr qf"
    and "parse_date_param ''until'' (qd_get ''until'' get) ctx = Inr qu"
    and "list_query_ok \<lparr>q_format = fmt, q_set = qs, q_from = qf, q_until = qu\<rparr>"
    and "leftover_args get = []"
  shows "getListQuery ctx get d = Inr (Inr \<lparr>q_format = fmt, q_set = qs, q_from = qf, q_until = qu\<rparr>)"
  using assms by (auto simp: getListQuery_eq list_query_ok_def split: option.splits)

text \<open>
  C6: Every list query that getListQuery returns has the request's non-empty
  metadataPrefix, dates in order, and comes from a request with no illegal argument.
\<close>

theorem getListQuery_result:
  assumes "getListQuery ctx get d = Inr (Inr q)"
  shows "truthy_value (qd_get ''metadataPrefix'' get) = Some (q_format q) \<and>
    list_query_ok q \<and> leftover_args get = []"
  using assms
  by (auto simp: getListQuery_eq list_query_ok_def not_less split: option.splits sum.splits if_splits list.splits)

text \<open>
  C8: A request naming a set that does not exist makes getListQuery raise DoesNotExist
  for OaiSet (line 86), not the badArgument error the spec asks for.
\<close>

theorem getListQuery_unknown_set:
  assumes "truthy_value (qd_get ''metadataPrefix'' get) \<noteq> None"
    and "qd_get ''set'' get = Some s" and "s \<noteq> []" and "s \<notin> set (db_sets d)"
  shows "getListQuery ctx get d = Inl (DoesNotExist ''OaiSet'')"
  using assms
  by (auto simp: getListQuery_eq check_set_def set_get_def objects_get_none split: option.splits)

text \<open>
  C9: when the recognised arguments are valid and the request carries an argument outside
  the five recognised names, getListQuery answers badArgument naming an illegal argument
  of the request. Which one is named depends on the iteration order of the dict of line 73
  (hash order in Python 2), so the statement fixes no order.
\<close>

theorem getListQuery_illegal_argument:
  assumes "truthy_value (qd_get ''metadataPrefix'' get) = Some fmt"
    and "check_set (qd_get ''set'' get) d = Inr qs"
    and "parse_date_param ''from'' (qd_get ''from'' get) ctx = Inr qf"
    and "parse_date_param ''until'' (qd_get ''until'' get) ctx = Inr qu"
    and "list_query_ok \<lparr>q_format = fmt, q_set = qs, q_from = qf, q_until = qu\<rparr>"
    and "k \<in> fst ` set get" and "k \<notin> set list_args"
  shows "\<exists>k'. k' \<in> fst ` set get \<and> k' \<notin> set list_args \<and>
    getListQuery ctx get d =
      Inr (Inl (formatError ''badArgument'' (''The argument \"'' @ k' @ ''\" is illegal.'') ctx))"
proof -
  have "k \<in> fst ` set (leftover_args get)"
    using assms(6,7) by (simp add: leftover_args_keys)
  then obtain k' v' rest where l: "leftover_args get = (k', v') # rest"
    by (cases "leftover_args get") auto
  then have "k' \<in> fst ` set (leftover_args get)" by simp
  then have k': "k' \<in> fst ` set get" "k' \<notin> set list_args" by (simp_all add: leftover_args_keys)
  have "getListQuery ctx get d =
      Inr (Inl (formatError ''badArgument'' (''The argument \"'' @ k' @ ''\" is illegal.'') ctx))"
    using assms(1-5) l by (auto simp: getListQuery_eq list_query_ok_def split: option.splits)
  with k' show ?thesis by blast
qed

lemma getListQuery_set_truthy:
  assumes "getListQuery ctx get d = Inr (Inr q)"
  shows "q_set q \<noteq> Some []"
  using assms
  by (auto simp: getListQuery_eq check_set_def split: option.splits sum.splits if_splits list.splits)

text \<open>
  C28: round trip of the Argument Validator: a list query with a non-empty prefix, an
  existing set or none, valid dates without microseconds and \<open>from \<le> until\<close>, sent as
  request parameters, is validated back to exactly the same query.
\<close>

theorem getListQuery_query_params:
  assumes "q_format q \<noteq> []"
    and "case q_set q of None \<Rightarrow> True | Some s \<Rightarrow> s \<noteq> [] \<and> set_get s d = Inr s"
    and "date_param_ok (q_from q)" and "date_param_ok (q_until q)" and "list_query_ok q"
  shows "getListQuery ctx (query_params v q) d = Inr (Inr q)"
proof -
  have cs: "check_set (q_set q) d = Inr (q_set q)"
    using assms(2) by (cases "q_set q") (simp_all add: check_set_def)
  have ord: "\<not> (case (q_from q, q_until q) of (Some f, Some u) \<Rightarrow> u < f | _ \<Rightarrow> False)"
    using assms(5) by (auto simp: list_query_ok_def not_less split: option.splits)
  show ?thesis
    using assms(1) cs ord
    by (simp add: getListQuery_eq query_params_get query_params_leftover
        parse_date_param_roundtrip [OF assms(3)] parse_date_param_roundtrip [OF assms(4)])
qed

text \<open>
  C35: type invariant of the Argument Validator: every query \<open>getListQuery\<close> returns is
  well typed against the store (\<open>query_typed\<close>): its format is non-empty, its set names
  an existing set, its dates are valid \<open>datetime\<close> values without microseconds, and
  \<open>from \<le> until\<close>.
\<close>

theorem getListQuery_typed:
  assumes "getListQuery ctx get d = Inr (Inr q)"
  shows "query_typed d q"
  using assms
  by (auto simp: getListQuery_eq query_typed_def list_query_ok_def not_less
      dest: parse_date_param_ok check_set_ok split: option.splits sum.splits if_splits list.splits)

end
