(* ===== verification/Pagination.thy ===== *)
theory Pagination
  imports Response
begin

text \<open>
  The Pagination Engine of \<open>src/oai/views.py\<close>:
  \<^item> \<open>handleListQuery\<close> (lines 121--131) runs a list query from an offset: it renders the
    page \<open>matches[offset:offset+results_limit]\<close> and, when more than a page remains
    (\<open>count - offset > results_limit\<close>, computed on Python integers), a new resumption
    token for the next page;
  \<^item> \<open>createResumptionToken\<close> (lines 134--145) builds the token, saves it (the token
    store allocates its primary key) and then generates its key. Line 140 reads the
    unbound name \<open>queryParameter\<close>: when the query has an \<open>until\<close> date the function
    raises \<open>NameError\<close> before the token is saved;
  \<^item> \<open>resumeRequest\<close> (lines 147--159) looks the token up by query type and key, rebuilds
    the query from its fields and runs \<open>handleListQuery\<close> from the token's offset.
    \<open>ResumptionToken.objects.get\<close> raises when no row matches, so the branch for an
    invalid token (lines 149--150) is never reached.
  Each function returns the response and the database after it.
\<close>

text \<open>
  The unsaved \<open>ResumptionToken\<close> object of lines 135--142. The \<open>NameError\<close> of line 140
  aborts the whole function, so \<open>createResumptionToken\<close> raises it first; building the
  object has no effect on the database.
\<close>

definition token_object :: "config \<Rightarrow> string \<Rightarrow> list_query \<Rightarrow> nat \<Rightarrow> nat \<Rightarrow> resumption_token" where
  "token_object cfg queryType queryParameters offset totalCount =
     (let token0 = \<lparr>tok_id = None, tok_queryType = queryType,
                    tok_metadataPrefix = q_format queryParameters, tok_offset = offset,
                    tok_cursor = int offset - int (results_limit cfg), tok_total_count = totalCount,
                    tok_fro = None, tok_until = None, tok_set = None, tok_key = None\<rparr>;
          token1 = (case q_from queryParameters of None \<Rightarrow> token0 | Some f \<Rightarrow> token0\<lparr>tok_fro := Some f\<rparr>)
      in (case q_set queryParameters of None \<Rightarrow> token1 | Some s \<Rightarrow> token1\<lparr>tok_set := Some s\<rparr>))"

definition createResumptionToken ::
  "config \<Rightarrow> string \<Rightarrow> list_query \<Rightarrow> nat \<Rightarrow> nat \<Rightarrow> db \<Rightarrow> exc + (resumption_token \<times> db)" where
  "createResumptionToken cfg queryType queryParameters offset totalCount d =
     (if q_until queryParameters \<noteq> None then Inl (NameError ''queryParameter'')
      else
        (let token = token_object cfg queryType queryParameters offset totalCount;
             (i, d1) = token_create token d;
             (k, d2) = token_assign_key (key_generator cfg) i d1
         in Inr (token\<lparr>tok_id := Some i, tok_key := Some k\<rparr>, d2)))"

text \<open>The two list verbs (line 123).\<close>

definition list_verbs :: "string list" where
  "list_verbs = [''ListRecords'', ''ListIdentifiers'']"

definition handleListQuery ::
  "config \<Rightarrow> oai_context \<Rightarrow> string \<Rightarrow> list_query \<Rightarrow> nat \<Rightarrow> db \<Rightarrow> response \<times> db" where
  "handleListQuery cfg ctx queryType parameters offset d =
     (if queryType = ''ListRecords'' \<or> queryType = ''ListIdentifiers'' then
        (let matches = objects_filter parameters d;
             count = length matches;
             page = py_slice matches offset (offset + results_limit cfg);
             template = ''oai/'' @ queryType @ ''.xml''
         in if int count - int offset > int (results_limit cfg) then
              (case createResumptionToken cfg queryType parameters (offset + results_limit cfg) count d of
                 Inl e \<Rightarrow> (Crash e, d)
               | Inr (token, d') \<Rightarrow>
                   (Render template (ctx\<lparr>ctx_token := Some token, ctx_matches := Some page\<rparr>), d'))
            else (Render template (ctx\<lparr>ctx_matches := Some page\<rparr>), d))
      else (NoResponse, d))"

definition resumeRequest ::
  "config \<Rightarrow> oai_context \<Rightarrow> string \<Rightarrow> string \<Rightarrow> db \<Rightarrow> response \<times> db" where
  "resumeRequest cfg ctx queryType key d =
     (case token_lookup queryType key d of
        Inl e \<Rightarrow> (Crash e, d)
      | Inr token \<Rightarrow>
          (let parameters = \<lparr>q_format = tok_metadataPrefix token, q_set = truthy_value (tok_set token),
                             q_from = tok_fro token, q_until = tok_until token\<rparr>
           in handleListQuery cfg ctx queryType parameters (tok_offset token) d))"

section \<open>Lemmas\<close>

lemma more_than_a_page: "(int n - int off > int l) \<longleftrightarrow> off + l < n"
  by arith

lemma py_slice_page: "py_slice xs off (off + l) = take l (drop off xs)"
  by (simp add: py_slice_def)

lemma token_object_fields [simp]:
  "tok_id (token_object cfg qt q off tot) = None"
  "tok_key (token_object cfg qt q off tot) = None"
  "tok_queryType (token_object cfg qt q off tot) = qt"
  "tok_metadataPrefix (token_object cfg qt q off tot) = q_format q"
  "tok_offset (token_object cfg qt q off tot) = off"
  "tok_cursor (token_object cfg qt q off tot) = int off - int (results_limit cfg)"
  "tok_total_count (token_object cfg qt q off tot) = tot"
  "tok_fro (token_object cfg qt q off tot) = q_from q"
  "tok_until (token_object cfg qt q off tot) = None"
  "tok_set (token_object cfg qt q off tot) = q_set q"
  by (simp_all add: token_object_def Let_def split: option.splits)

lemma createResumptionToken_until:
  "q_until q \<noteq> None \<Longrightarrow> createResumptionToken cfg qt q off tot d = Inl (NameError ''queryParameter'')"
  by (simp add: createResumptionToken_def)

lemma createResumptionToken_eq:
  "q_until q = None \<Longrightarrow> createResumptionToken cfg qt q off tot d =
     Inr ((token_object cfg qt q off tot)\<lparr>tok_id := Some (db_next_id d),
            tok_key := Some (key_generator cfg (db_next_id d))\<rparr>,
          snd (token_assign_key (key_generator cfg) (db_next_id d)
                (snd (token_create (token_object cfg qt q off tot) d))))"
  by (simp add: createResumptionToken_def Let_def split_def token_create_def token_assign_key_def)

lemma createResumptionToken_steps:
  assumes "q_until q = None" and "createResumptionToken cfg qt q off tot d = Inr (t, d')"
  shows "(ts_step (key_generator cfg))\<^sup>*\<^sup>* d d'"
proof -
  let ?t0 = "token_object cfg qt q off tot"
  have d': "d' = snd (token_assign_key (key_generator cfg) (db_next_id d) (snd (token_create ?t0 d)))"
    using assms by (simp add: createResumptionToken_eq)
  have "ts_step (key_generator cfg) d (snd (token_create ?t0 d))" by (rule ts_step.save) simp
  moreover have "ts_step (key_generator cfg) (snd (token_create ?t0 d)) d'"
    unfolding d' by (rule ts_step.genkey)
  ultimately show ?thesis by auto
qed

lemma createResumptionToken_stored:
  assumes "q_until q = None" and "createResumptionToken cfg qt q off tot d = Inr (t, d')"
    and "tokens_wf kg d"
  shows "t \<in> set (db_tokens d')"
proof -
  from assms(3) have "Some (db_next_id d) \<notin> tok_id ` set (db_tokens d)"
    by (auto simp: tokens_wf_def list_all_iff token_row_ok_def split: option.splits)
  with assms(1,2) show ?thesis
    by (auto simp: createResumptionToken_eq token_create_def token_assign_key_def)
qed


lemma handleListQuery_last_page:
  assumes "qt \<in> set list_verbs" and "\<not> off + results_limit cfg < length (objects_filter q d)"
  shows "handleListQuery cfg ctx qt q off d =
    (Render (''oai/'' @ qt @ ''.xml'')
       (ctx\<lparr>ctx_matches := Some (take (results_limit cfg) (drop off (objects_filter q d)))\<rparr>), d)"
  using assms by (auto simp: handleListQuery_def list_verbs_def Let_def more_than_a_page py_slice_page)

lemma handleListQuery_until:
  assumes "qt \<in> set list_verbs" and "off + results_limit cfg < length (objects_filter q d)"
    and "q_until q \<noteq> None"
  shows "handleListQuery cfg ctx qt q off d = (Crash (NameError ''queryParameter''), d)"
  using assms
  by (auto simp: handleListQuery_def list_verbs_def Let_def more_than_a_page createResumptionToken_until)

lemma handleListQuery_more:
  assumes "qt \<in> set list_verbs" and "off + results_limit cfg < length (objects_filter q d)"
    and "q_until q = None"
    and "createResumptionToken cfg qt q (off + results_limit cfg) (length (objects_filter q d)) d = Inr (t, d')"
  shows "handleListQuery cfg ctx qt q off d =
    (Render (''oai/'' @ qt @ ''.xml'')
       (ctx\<lparr>ctx_token := Some t,
            ctx_matches := Some (take (results_limit cfg) (drop off (objects_filter q d)))\<rparr>), d')"
  using assms by (auto simp: handleListQuery_def list_verbs_def Let_def more_than_a_page py_slice_page)

lemma handleListQuery_cases:
  assumes "qt \<in> set list_verbs"
  obtains (last) "\<not> off + results_limit cfg < length (objects_filter q d)"
  | (until) "off + results_limit cfg < length (objects_filter q d)" "q_until q \<noteq> None"
  | (more) t d' where "off + results_limit cfg < length (objects_filter q d)" "q_until q = None"
      "createResumptionToken cfg qt q (off + results_limit cfg) (length (objects_filter q d)) d = Inr (t, d')"
  using createResumptionToken_eq by (metis old.prod.exhaust)

theorem handleListQuery_page:
  assumes "qt \<in> set list_verbs"
    and "q_until q = None \<or> length (objects_filter q d) \<le> off + results_limit cfg"
  shows "resp_matches (fst (handleListQuery cfg ctx qt q off d)) =
    Some (take (results_limit cfg) (drop off (objects_filter q d)))"
  using assms(1)
proof (cases rule: handleListQuery_cases [where off = off and cfg = cfg and q = q and d = d])
  case last
  with assms(1) show ?thesis by (simp add: handleListQuery_last_page)
next
  case until
  with assms(2) show ?thesis by simp
next
  case (more t d')
  with assms(1) show ?thesis by (simp add: handleListQuery_more)
qed

lemma createResumptionToken_keyed:
  assumes "tokens_wf (key_generator cfg) d" and "tokens_keyed d"
    and "createResumptionToken cfg qt q off tot d = Inr (t, d')"
  shows "tokens_keyed d'"
proof -
  have "q_until q = None"
    using assms(3) by (cases "q_until q") (simp_all add: createResumptionToken_until)
  with assms(3) have "d' = snd (token_assign_key (key_generator cfg) (db_next_id d)
      (snd (token_create (token_object cfg qt q off tot) d)))"
    by (simp add: createResumptionToken_eq)
  then show ?thesis using tokens_keyed_create_assign [OF assms(1,2)] by simp
qed

lemma handleListQuery_keyed:
  assumes "tokens_wf (key_generator cfg) d" and "tokens_keyed d"
  shows "tokens_keyed (snd (handleListQuery cfg ctx qt q off d))"
proof (cases "qt \<in> set list_verbs")
  case False
  with assms(2) show ?thesis by (auto simp: handleListQuery_def list_verbs_def)
next
  case True
  then show ?thesis
  proof (cases rule: handleListQuery_cases [where off = off and cfg = cfg and q = q and d = d])
    case (more t d')
    with True have "snd (handleListQuery cfg ctx qt q off d) = d'" by (simp add: handleListQuery_more)
    with more(3) show ?thesis by (simp add: createResumptionToken_keyed [OF assms])
  qed (use True assms(2) in \<open>simp_all add: handleListQuery_last_page handleListQuery_until\<close>)
qed

lemma resumeRequest_keyed:
  assumes "tokens_wf (key_generator cfg) d" and "tokens_keyed d"
  shows "tokens_keyed (snd (resumeRequest cfg ctx qt k d))"
  using assms handleListQuery_keyed [OF assms] by (simp add: resumeRequest_def split: sum.split)

text \<open>
  C10: For a list query without until, handleListQuery issues a resumption token
  exactly when records remain after the page, that is when off + results_limit is
  below the number of matches.
\<close>

theorem handleListQuery_token_iff:
  assumes "qt \<in> set list_verbs" and "q_until q = None" and "ctx_token ctx = None"
  shows "resp_token (fst (handleListQuery cfg ctx qt q off d)) \<noteq> None \<longleftrightarrow>
    off + results_limit cfg < length (objects_filter q d)"
  using assms(1)
proof (cases rule: handleListQuery_cases [where off = off and cfg = cfg and q = q and d = d])
  case last
  with assms show ?thesis by (simp add: handleListQuery_last_page)
next
  case until
  with assms(2) show ?thesis by simp
next
  case (more t d')
  with assms show ?thesis by (simp add: handleListQuery_more)
qed

text \<open>
  C2: A token issued by handleListQuery at offset off has the request's verb, offset
  off + results_limit, cursor off (the position of the page just delivered), the total
  number of matches, and an offset below that total.
\<close>

theorem handleListQuery_token_fields:
  assumes "qt \<in> set list_verbs" and "ctx_token ctx = None"
    and "resp_token (fst (handleListQuery cfg ctx qt q off d)) = Some t"
  shows "tok_queryType t = qt \<and> tok_offset t = off + results_limit cfg \<and> tok_cursor t = int off \<and>
    tok_total_count t = length (objects_filter q d) \<and> tok_offset t < tok_total_count t"
  using assms(1)
proof (cases rule: handleListQuery_cases [where off = off and cfg = cfg and q = q and d = d])
  case last
  with assms show ?thesis by (simp add: handleListQuery_last_page)
next
  case until
  with assms show ?thesis by (simp add: handleListQuery_until)
next
  case (more t' d')
  with assms show ?thesis by (auto simp: handleListQuery_more createResumptionToken_eq)
qed

text \<open>
  C11: When the remaining matches fill exactly one page, handleListQuery returns a
  full page and no token.
\<close>

theorem handleListQuery_exact_last_page:
  assumes "qt \<in> set list_verbs" and "ctx_token ctx = None"
    and "length (objects_filter q d) = off + results_limit cfg"
  shows "resp_token (fst (handleListQuery cfg ctx qt q off d)) = None \<and>
    map_option length (resp_matches (fst (handleListQuery cfg ctx qt q off d))) = Some (results_limit cfg)"
  using assms by (simp add: handleListQuery_last_page)

text \<open>
  C12: When the offset is at or past the number of matches, handleListQuery returns an
  empty page and no token.
\<close>

theorem handleListQuery_past_end:
  assumes "qt \<in> set list_verbs" and "ctx_token ctx = None"
    and "length (objects_filter q d) \<le> off"
  shows "resp_token (fst (handleListQuery cfg ctx qt q off d)) = None \<and>
    resp_matches (fst (handleListQuery cfg ctx qt q off d)) = Some []"
  using assms by (simp add: handleListQuery_last_page)

lemma handleListQuery_steps:
  "(ts_step (key_generator cfg))\<^sup>*\<^sup>* d (snd (handleListQuery cfg ctx qt q off d))"
proof (cases "qt \<in> set list_verbs")
  case True
  then show ?thesis
  proof (cases rule: handleListQuery_cases [where off = off and cfg = cfg and q = q and d = d])
    case (more t d')
    with True show ?thesis by (simp add: handleListQuery_more createResumptionToken_steps)
  qed (simp_all add: True handleListQuery_last_page handleListQuery_until)
next
  case False
  then show ?thesis by (simp add: handleListQuery_def list_verbs_def)
qed

lemma handleListQuery_matches_records:
  assumes "db_records d1 = db_records d"
  shows "resp_matches (fst (handleListQuery cfg ctx qt p off d1)) =
    resp_matches (fst (handleListQuery cfg ctx qt p off d))"
proof (cases "qt \<in> set list_verbs")
  case True
  note f = objects_filter_records [OF assms, of p]
  show ?thesis
  proof (cases "q_until p = None \<or> length (objects_filter p d) \<le> off + results_limit cfg")
    case True
    with \<open>qt \<in> set list_verbs\<close> show ?thesis by (simp add: handleListQuery_page f)
  next
    case False
    with \<open>qt \<in> set list_verbs\<close> show ?thesis by (simp add: handleListQuery_until f)
  qed
next
  case False
  then show ?thesis by (simp add: handleListQuery_def list_verbs_def)
qed

lemma resumeRequest_found:
  assumes "token_lookup qt k d = Inr t"
  shows "resumeRequest cfg ctx qt k d =
    handleListQuery cfg ctx qt \<lparr>q_format = tok_metadataPrefix t, q_set = truthy_value (tok_set t),
                                 q_from = tok_fro t, q_until = tok_until t\<rparr> (tok_offset t) d"
  using assms by (simp add: resumeRequest_def)

lemma resumeRequest_steps:
  "(ts_step (key_generator cfg))\<^sup>*\<^sup>* d (snd (resumeRequest cfg ctx qt k d))"
  by (simp add: resumeRequest_def handleListQuery_steps split: sum.split)

lemma handleListQuery_token_key:
  assumes "qt \<in> set list_verbs" and "ctx_token ctx = None"
    and "resp_token (fst (handleListQuery cfg ctx qt q off d)) = Some t"
  shows "tok_key t = Some (key_generator cfg (db_next_id d))"
  using assms(1)
proof (cases rule: handleListQuery_cases [where off = off and cfg = cfg and q = q and d = d])
  case last
  with assms show ?thesis by (simp add: handleListQuery_last_page)
next
  case until
  with assms show ?thesis by (simp add: handleListQuery_until)
next
  case (more t' d')
  with assms show ?thesis by (auto simp: handleListQuery_more createResumptionToken_eq)
qed

lemma resume_handle_roundtrip:
  assumes "tokens_wf (key_generator cfg) d" and "inj (key_generator cfg)"
    and "qt \<in> set list_verbs" and "q_until q = None" and "q_set q \<noteq> Some []"
    and "ctx_token ctx = None"
    and "handleListQuery cfg ctx qt q off d = (r, d')" and "resp_token r = Some t"
    and "tok_key t = Some k"
  shows "resumeRequest cfg ctx' qt k d' = handleListQuery cfg ctx' qt q (off + results_limit cfg) d'"
  using assms(3)
proof (cases rule: handleListQuery_cases [where off = off and cfg = cfg and q = q and d = d])
  case last
  with assms(3,6,7,8) have False by (auto simp: handleListQuery_last_page)
  then show ?thesis ..
next
  case until
  with assms(4) show ?thesis by simp
next
  case (more t' d'')
  from more assms(3,7) have r: "r = Render (''oai/'' @ qt @ ''.xml'') (ctx\<lparr>ctx_token := Some t',
      ctx_matches := Some (take (results_limit cfg) (drop off (objects_filter q d)))\<rparr>)"
    and d'': "d'' = d'" by (simp_all add: handleListQuery_more)
  from r assms(8) have t: "t' = t" by simp
  let ?kg = "key_generator cfg"
  have qt: "tok_queryType t = qt"
    using more t assms(4) by (auto simp: createResumptionToken_eq)
  have "(ts_step ?kg)\<^sup>*\<^sup>* d d'" using more t d'' assms(4) by (metis createResumptionToken_steps)
  then have wf': "tokens_wf ?kg d'" using assms(1) by (rule ts_steps_tokens_wf)
  have mem: "t \<in> set (db_tokens d')" using more t d'' assms(1,4) by (metis createResumptionToken_stored)
  have "token_lookup (tok_queryType t) k d' = Inr t"
    by (rule token_lookup_found [OF wf' assms(2) mem assms(9)])
  then have l: "token_lookup qt k d' = Inr t" by (simp add: qt)
  have "\<lparr>q_format = tok_metadataPrefix t, q_set = truthy_value (tok_set t),
      q_from = tok_fro t, q_until = tok_until t\<rparr> = q"
    using more t assms(4,5) by (cases "q_set q") (auto simp: createResumptionToken_eq)
  moreover have "tok_offset t = off + results_limit cfg"
    using more t assms(4) by (auto simp: createResumptionToken_eq)
  ultimately show ?thesis by (simp add: resumeRequest_found [OF l])
qed

lemma resumeRequest_matches_steps:
  assumes steps: "(ts_step (key_generator cfg))\<^sup>*\<^sup>* d d1"
    and wf: "tokens_wf (key_generator cfg) d" and inj: "inj (key_generator cfg)"
    and t: "t \<in> set (db_tokens d)" and k: "tok_key t = Some k"
  shows "resp_matches (fst (resumeRequest cfg ctx (tok_queryType t) k d1)) =
    resp_matches (fst (resumeRequest cfg ctx (tok_queryType t) k d))"
proof -
  have mem: "t \<in> set (db_tokens d1)"
    by (rule ts_steps_keep_keyed [OF steps wf t]) (simp add: k)
  have wf1: "tokens_wf (key_generator cfg) d1" using steps wf by (rule ts_steps_tokens_wf)
  have l1: "token_lookup (tok_queryType t) k d1 = Inr t" by (rule token_lookup_found [OF wf1 inj mem k])
  have l0: "token_lookup (tok_queryType t) k d = Inr t" by (rule token_lookup_found [OF wf inj t k])
  have recs: "db_records d1 = db_records d" using ts_steps_records [OF steps] by simp
  let ?P = "\<lparr>q_format = tok_metadataPrefix t, q_set = truthy_value (tok_set t),
             q_from = tok_fro t, q_until = tok_until t\<rparr>"
  have "resp_matches (fst (resumeRequest cfg ctx (tok_queryType t) k d1)) =
      resp_matches (fst (handleListQuery cfg ctx (tok_queryType t) ?P (tok_offset t) d1))"
    by (simp only: resumeRequest_found [OF l1])
  also have "\<dots> = resp_matches (fst (handleListQuery cfg ctx (tok_queryType t) ?P (tok_offset t) d))"
    using recs by (rule handleListQuery_matches_records)
  also have "\<dots> = resp_matches (fst (resumeRequest cfg ctx (tok_queryType t) k d))"
    by (simp only: resumeRequest_found [OF l0])
  finally show ?thesis .
qed

text \<open>
  C13: Resuming the same token twice with no other change to the store returns the
  same page both times.
\<close>

theorem resumeRequest_idempotent:
  assumes "tokens_wf (key_generator cfg) d" and "inj (key_generator cfg)"
  shows "resp_matches (fst (resumeRequest cfg ctx qt k (snd (resumeRequest cfg ctx qt k d)))) =
    resp_matches (fst (resumeRequest cfg ctx qt k d))"
proof (cases "token_lookup qt k d")
  case (Inl e)
  then show ?thesis by (simp add: resumeRequest_def)
next
  case (Inr t)
  from Inr have "filter (\<lambda>t. tok_queryType t = qt \<and> tok_key t = Some k) (db_tokens d) = [t]"
    by (simp add: token_lookup_def objects_get_Inr_iff)
  then have "t \<in> set (filter (\<lambda>t. tok_queryType t = qt \<and> tok_key t = Some k) (db_tokens d))"
    by simp
  then have t: "t \<in> set (db_tokens d)" "tok_queryType t = qt" "tok_key t = Some k"
    by simp_all
  show ?thesis
    using resumeRequest_matches_steps [OF resumeRequest_steps assms(1,2) t(1) t(3)] t(2) by simp
qed

text \<open>
  C14: Resuming a key that no token of that verb carries raises DoesNotExist for
  ResumptionToken and leaves the store unchanged; no badResumptionToken error is
  produced.
\<close>

theorem resumeRequest_unknown_key:
  assumes "\<forall>t \<in> set (db_tokens d). tok_queryType t = qt \<longrightarrow> tok_key t \<noteq> Some k"
  shows "resumeRequest cfg ctx qt k d = (Crash (DoesNotExist ''ResumptionToken''), d)"
  using assms by (simp add: resumeRequest_def token_lookup_def objects_get_none)

text \<open>
  C26: \<open>createResumptionToken\<close> implements insertion into the abstract token map: the
  token it returns carries a key that no token of the store had for this verb, and the
  store afterwards maps the verb and that key to the returned token and is otherwise
  unchanged.
\<close>

theorem createResumptionToken_refines:
  assumes "tokens_wf (key_generator cfg) d" and "inj (key_generator cfg)"
    and "createResumptionToken cfg qt q off tot d = Inr (t, d')"
  shows "\<exists>k. tok_key t = Some k \<and> token_index d (qt, k) = None \<and>
    token_index d' = (token_index d)((qt, k) \<mapsto> t)"
proof -
  let ?kg = "key_generator cfg" and ?n = "db_next_id d"
  let ?t0 = "token_object cfg qt q off tot"
  have u: "q_until q = None"
    using assms(3) by (cases "q_until q") (simp_all add: createResumptionToken_until)
  with assms(3) have t: "t = ?t0\<lparr>tok_id := Some ?n, tok_key := Some (?kg ?n)\<rparr>"
    and d': "d' = snd (token_assign_key ?kg ?n (snd (token_create ?t0 d)))"
    by (simp_all add: createResumptionToken_eq)
  have "token_index d (tok_queryType ?t0, ?kg ?n) = None \<and>
      token_index d' = (token_index d)((tok_queryType ?t0, ?kg ?n) \<mapsto> t)"
    unfolding d' t by (rule token_index_create_assign [OF assms(1,2)])
  then show ?thesis by (simp add: t)
qed

end
