(* ===== verification/Dispatcher.thy ===== *)
theory Dispatcher
  imports Validator Pagination
begin

text \<open>
  The Verb Dispatcher of \<open>src/oai/views.py\<close>: \<open>endpoint\<close> (lines 30--53) and the
  \<open>Identify\<close> handler \<open>identify\<close> (lines 55--62).
  A request is its host, its full path, its GET parameters (a \<open>QueryDict\<close>) and the UTC
  time read by \<open>datetime.utcnow()\<close> when it is dispatched. \<open>endpoint\<close> builds the
  context (the URL and the timestamp, to the second, with a \<open>Z\<close>), answers a missing verb
  with \<open>badVerb\<close>, echoes the parameters into the context, and routes:
  \<open>Identify\<close> to \<open>identify\<close>; \<open>ListRecords\<close> and \<open>ListIdentifiers\<close> to
  \<open>resumeRequest\<close> when the request carries a \<open>resumptionToken\<close>, and otherwise to
  \<open>getListQuery\<close> and then \<open>handleListQuery\<close> from offset 0; any other verb to
  \<open>badVerb\<close>. \<open>to_kv_pairs\<close> (\<open>oai/utils.py\<close>, not part of the sources) echoes every
  parameter, as the spec says.
\<close>

record request =
  req_host :: string
  req_full_path :: string
  req_GET :: querydict
  req_utcnow :: datetime

definition to_kv_pairs :: "querydict \<Rightarrow> (string \<times> string) list" where
  "to_kv_pairs params = params"

text \<open>Lines 32--36: the context every response of the request is rendered with.\<close>

definition base_context :: "request \<Rightarrow> oai_context" where
  "base_context req =
     \<lparr>ctx_thisUrl = ''http://'' @ req_host req @ req_full_path req,
      ctx_timestamp = isoformat (replace_microsecond (req_utcnow req) 0) @ ''Z'',
      ctx_params = None, ctx_baseURL = None, ctx_earliestDatestamp = None, ctx_matches = None,
      ctx_token = None, ctx_errorCode = None, ctx_errorMessage = None\<rparr>"

text \<open>Line 41: the context after the parameters are echoed.\<close>

definition request_context :: "request \<Rightarrow> oai_context" where
  "request_context req = (base_context req)\<lparr>ctx_params := Some (to_kv_pairs (req_GET req))\<rparr>"

definition identify :: "config \<Rightarrow> request \<Rightarrow> oai_context \<Rightarrow> db \<Rightarrow> response" where
  "identify cfg req ctx d =
     Render ''oai/identify.xml''
       (ctx\<lparr>ctx_baseURL := Some (''http://'' @ req_host req @ ''/'' @ oai_endpoint_name cfg),
            ctx_earliestDatestamp := Some
              (case earliest_record d of
                 Some earliest \<Rightarrow> EarliestDatetime (rec_timestamp earliest)
               | None \<Rightarrow> EarliestString ''1990-01-01'')\<rparr>)"

definition endpoint :: "config \<Rightarrow> request \<Rightarrow> db \<Rightarrow> response \<times> db" where
  "endpoint cfg req d =
     (case truthy_value (qd_get ''verb'' (req_GET req)) of
        None \<Rightarrow> (formatError ''badVerb'' ''No verb specified!'' (base_context req), d)
      | Some verb \<Rightarrow>
          (let context = request_context req in
           if verb = ''Identify'' then (identify cfg req context d, d)
           else if verb = ''ListRecords'' \<or> verb = ''ListIdentifiers'' then
             (case qd_get ''resumptionToken'' (req_GET req) of
                Some key \<Rightarrow> resumeRequest cfg context verb key d
              | None \<Rightarrow>
                  (case getListQuery context (req_GET req) d of
                     Inl e \<Rightarrow> (Crash e, d)
                   | Inr (Inl error) \<Rightarrow> (error, d)
                   | Inr (Inr queryParameters) \<Rightarrow> handleListQuery cfg context verb queryParameters 0 d))
           else (formatError ''badVerb'' (''Verb \"'' @ verb @ ''\" is not implemented.'') context, d)))"

text \<open>
  The stores a server reaches from \<open>d0\<close> by answering any sequence of requests, one at
  a time.
\<close>

inductive served :: "config \<Rightarrow> db \<Rightarrow> db \<Rightarrow> bool" for cfg where
  served_refl: "served cfg d0 d0"
| served_step: "served cfg d0 d \<Longrightarrow> served cfg d0 (snd (endpoint cfg req d))"

section \<open>Lemmas\<close>

lemma endpoint_verb:
  assumes "truthy_value (qd_get ''verb'' (req_GET req)) = Some v"
  shows "endpoint cfg req d =
    (if v = ''Identify'' then (identify cfg req (request_context req) d, d)
     else if v \<in> set list_verbs then
       (case qd_get ''resumptionToken'' (req_GET req) of
          Some key \<Rightarrow> resumeRequest cfg (request_context req) v key d
        | None \<Rightarrow>
            (case getListQuery (request_context req) (req_GET req) d of
               Inl e \<Rightarrow> (Crash e, d)
             | Inr (Inl error) \<Rightarrow> (error, d)
             | Inr (Inr q) \<Rightarrow> handleListQuery cfg (request_context req) v q 0 d))
     else (formatError ''badVerb'' (''Verb \"'' @ v @ ''\" is not implemented.'') (request_context req), d))"
  using assms by (simp add: endpoint_def list_verbs_def Let_def)

lemma endpoint_resume:
  assumes "truthy_value (qd_get ''verb'' (req_GET req)) = Some v" and "v \<in> set list_verbs"
    and "qd_get ''resumptionToken'' (req_GET req) = Some k"
  shows "endpoint cfg req d = resumeRequest cfg (request_context req) v k d"
  using assms by (auto simp: endpoint_verb list_verbs_def)

lemma endpoint_fresh:
  assumes "truthy_value (qd_get ''verb'' (req_GET req)) = Some v" and "v \<in> set list_verbs"
    and "qd_get ''resumptionToken'' (req_GET req) = None"
    and "getListQuery (request_context req) (req_GET req) d = Inr (Inr q)"
  shows "endpoint cfg req d = handleListQuery cfg (request_context req) v q 0 d"
  using assms by (auto simp: endpoint_verb list_verbs_def)

lemma context_fields [simp]:
  "ctx_token (base_context req) = None" "ctx_token (request_context req) = None"
  "ctx_timestamp (request_context req) = ctx_timestamp (base_context req)"
  by (simp_all add: base_context_def request_context_def)

text \<open>What a handler changes in the context and the database, for any context.\<close>

lemma handleListQuery_context:
  assumes "fst (handleListQuery cfg ctx qt q off d) = Render tpl c"
  shows "ctx_timestamp c = ctx_timestamp ctx \<and> tpl = ''oai/'' @ qt @ ''.xml''"
  using assms
  by (auto simp: handleListQuery_def Let_def split: if_splits sum.splits prod.splits)

lemma handleListQuery_ctx_indep:
  assumes "ctx_token ctx1 = ctx_token ctx2"
  shows "resp_matches (fst (handleListQuery cfg ctx1 qt q off d)) = resp_matches (fst (handleListQuery cfg ctx2 qt q off d)) \<and>
    resp_token (fst (handleListQuery cfg ctx1 qt q off d)) = resp_token (fst (handleListQuery cfg ctx2 qt q off d)) \<and>
    snd (handleListQuery cfg ctx1 qt q off d) = snd (handleListQuery cfg ctx2 qt q off d)"
proof (cases "qt \<in> set list_verbs")
  case True
  then show ?thesis
  proof (cases rule: handleListQuery_cases [where off = off and cfg = cfg and q = q and d = d])
    case last
    with True assms show ?thesis by (simp add: handleListQuery_last_page)
  next
    case until
    with True show ?thesis by (simp add: handleListQuery_until)
  next
    case (more t d')
    with True show ?thesis by (simp add: handleListQuery_more)
  qed
next
  case False
  then show ?thesis by (simp add: handleListQuery_def list_verbs_def)
qed

lemma resumeRequest_ctx_indep:
  assumes "ctx_token ctx1 = ctx_token ctx2"
  shows "resp_matches (fst (resumeRequest cfg ctx1 qt k d)) = resp_matches (fst (resumeRequest cfg ctx2 qt k d)) \<and>
    resp_token (fst (resumeRequest cfg ctx1 qt k d)) = resp_token (fst (resumeRequest cfg ctx2 qt k d)) \<and>
    snd (resumeRequest cfg ctx1 qt k d) = snd (resumeRequest cfg ctx2 qt k d)"
proof (cases "token_lookup qt k d")
  case (Inl e)
  then show ?thesis by (simp add: resumeRequest_def)
next
  case (Inr t)
  show ?thesis unfolding resumeRequest_found [OF Inr] by (rule handleListQuery_ctx_indep [OF assms])
qed

lemma resumeRequest_context:
  assumes "fst (resumeRequest cfg ctx qt k d) = Render tpl c"
  shows "ctx_timestamp c = ctx_timestamp ctx \<and> tpl = ''oai/'' @ qt @ ''.xml''"
proof (cases "token_lookup qt k d")
  case (Inl e)
  with assms show ?thesis by (simp add: resumeRequest_def)
next
  case (Inr t)
  from assms show ?thesis unfolding resumeRequest_found [OF Inr] by (rule handleListQuery_context)
qed

lemma handleListQuery_no_error: "resp_error (fst (handleListQuery cfg ctx qt q off d)) = None"
proof (cases "fst (handleListQuery cfg ctx qt q off d)")
  case (Render tpl c)
  then have "tpl = ''oai/'' @ qt @ ''.xml''" using handleListQuery_context [OF Render] by simp
  moreover have "''oai/'' @ qt @ ''.xml'' \<noteq> ''oai/error.xml''" if "qt = ''ListRecords'' \<or> qt = ''ListIdentifiers''"
    using that by auto
  moreover have "qt = ''ListRecords'' \<or> qt = ''ListIdentifiers''"
    using Render by (auto simp: handleListQuery_def split: if_splits)
  ultimately show ?thesis using Render by simp
qed simp_all

lemma resumeRequest_no_error: "resp_error (fst (resumeRequest cfg ctx qt k d)) = None"
  by (simp add: resumeRequest_def handleListQuery_no_error split: sum.split)

lemma getListQuery_error_code:
  assumes "getListQuery ctx get d = Inr (Inl err)"
  shows "\<exists>m. err = formatError ''badArgument'' m ctx"
  using assms
  by (auto simp: getListQuery_eq parse_date_param_def split: option.splits sum.splits if_splits list.splits)

lemma endpoint_steps: "(ts_step (key_generator cfg))\<^sup>*\<^sup>* d (snd (endpoint cfg req d))"
  by (simp add: endpoint_def Let_def resumeRequest_steps handleListQuery_steps
      split: option.split sum.split)

lemma endpoint_context:
  assumes "fst (endpoint cfg req d) = Render tpl c"
  shows "ctx_timestamp c = ctx_timestamp (base_context req)"
proof (cases "truthy_value (qd_get ''verb'' (req_GET req))")
  case None
  with assms show ?thesis by (auto simp: endpoint_def formatError_def)
next
  case (Some v)
  note e = endpoint_verb [OF Some, of cfg d]
  show ?thesis
  proof (cases "v = ''Identify'' \<or> v \<notin> set list_verbs")
    case True
    with assms e show ?thesis by (auto simp: identify_def formatError_def split: if_splits)
  next
    case False
    show ?thesis
    proof (cases "qd_get ''resumptionToken'' (req_GET req)")
      case (Some k)
      with False assms e show ?thesis by (auto dest: resumeRequest_context)
    next
      case None
      with False assms e show ?thesis
        by (auto dest: handleListQuery_context getListQuery_error_code simp: formatError_def
            split: sum.splits)
    qed
  qed
qed

lemma handleListQuery_page_le:
  assumes "ctx_matches ctx = None" and "resp_matches (fst (handleListQuery cfg ctx qt q off d)) = Some xs"
  shows "length xs \<le> results_limit cfg"
proof (cases "qt \<in> set list_verbs")
  case False
  with assms(2) show ?thesis by (auto simp: handleListQuery_def list_verbs_def)
next
  case True
  then show ?thesis
  proof (cases rule: handleListQuery_cases [where off = off and cfg = cfg and q = q and d = d])
    case last
    with True assms(2) show ?thesis by (auto simp: handleListQuery_last_page)
  next
    case until
    with True assms(2) show ?thesis by (simp add: handleListQuery_until)
  next
    case (more t d')
    with True assms(2) show ?thesis by (auto simp: handleListQuery_more)
  qed
qed

lemma resumeRequest_page_le:
  assumes "ctx_matches ctx = None" and "resp_matches (fst (resumeRequest cfg ctx qt k d)) = Some xs"
  shows "length xs \<le> results_limit cfg"
  using assms handleListQuery_page_le [OF assms(1)]
  by (auto simp: resumeRequest_def split: sum.splits)

lemma request_context_matches [simp]:
  "ctx_matches (base_context req) = None" "ctx_matches (request_context req) = None"
  by (simp_all add: base_context_def request_context_def)

lemma endpoint_keyed:
  assumes "tokens_wf (key_generator cfg) d" and "tokens_keyed d"
  shows "tokens_keyed (snd (endpoint cfg req d))"
  using assms resumeRequest_keyed [OF assms] handleListQuery_keyed [OF assms]
  by (simp add: endpoint_def Let_def split: option.split sum.split)




lemma served_steps: "served cfg d0 d \<Longrightarrow> (ts_step (key_generator cfg))\<^sup>*\<^sup>* d0 d"
  by (induction rule: served.induct) (auto intro: rtranclp_trans endpoint_steps)

text \<open>
  C21: A request without a non-empty verb is answered with badVerb and the fixed
  message, rendered with the context that holds no parameters.
\<close>

theorem endpoint_missing_verb:
  assumes "truthy_value (qd_get ''verb'' (req_GET req)) = None"
  shows "endpoint cfg req d = (formatError ''badVerb'' ''No verb specified!'' (base_context req), d)"
  using assms by (simp add: endpoint_def)

text \<open>
  C22: A verb other than Identify, ListRecords and ListIdentifiers is answered with
  badVerb naming the verb.
\<close>

theorem endpoint_unknown_verb:
  assumes "truthy_value (qd_get ''verb'' (req_GET req)) = Some v"
    and "v \<noteq> ''Identify''" and "v \<notin> set list_verbs"
  shows "endpoint cfg req d =
    (formatError ''badVerb'' (''Verb \"'' @ v @ ''\" is not implemented.'') (request_context req), d)"
  using assms by (simp add: endpoint_verb)

text \<open>
  C3: A list request that carries a resumptionToken is answered from the token alone:
  two requests with the same verb and token return the same page, the same new token
  and the same store, whatever their other arguments.
\<close>

theorem endpoint_resumptionToken_precedence:
  assumes "truthy_value (qd_get ''verb'' (req_GET req1)) = Some v"
    and "truthy_value (qd_get ''verb'' (req_GET req2)) = Some v" and "v \<in> set list_verbs"
    and "qd_get ''resumptionToken'' (req_GET req1) = Some k"
    and "qd_get ''resumptionToken'' (req_GET req2) = Some k"
  shows "resp_matches (fst (endpoint cfg req1 d)) = resp_matches (fst (endpoint cfg req2 d)) \<and>
    resp_token (fst (endpoint cfg req1 d)) = resp_token (fst (endpoint cfg req2 d)) \<and>
    snd (endpoint cfg req1 d) = snd (endpoint cfg req2 d)"
proof -
  have "ctx_token (request_context req1) = ctx_token (request_context req2)" by simp
  then show ?thesis
    unfolding endpoint_resume [OF assms(1,3,4)] endpoint_resume [OF assms(2,3,5)]
    by (rule resumeRequest_ctx_indep)
qed

text \<open>
  C17: Every error response of endpoint carries one of the codes badVerb, badArgument,
  badResumptionToken.
\<close>

theorem endpoint_error_codes:
  assumes "resp_error (fst (endpoint cfg req d)) = Some (code, msg)"
  shows "code \<in> set oai_error_codes"
proof (cases "truthy_value (qd_get ''verb'' (req_GET req))")
  case None
  with assms show ?thesis by (simp add: endpoint_def oai_error_codes_def)
next
  case (Some v)
  note e = endpoint_verb [OF Some, of cfg d]
  show ?thesis
  proof (cases "v = ''Identify'' \<or> v \<notin> set list_verbs")
    case True
    with assms e show ?thesis by (auto simp: identify_def oai_error_codes_def split: if_splits)
  next
    case False
    show ?thesis
    proof (cases "qd_get ''resumptionToken'' (req_GET req)")
      case (Some k)
      with False assms e show ?thesis by (simp add: resumeRequest_no_error)
    next
      case None
      with False assms e show ?thesis
        by (auto simp: handleListQuery_no_error oai_error_codes_def dest!: getListQuery_error_code
            split: sum.splits)
    qed
  qed
qed

text \<open>
  C18: The responseDate of every rendered response is the request's UTC time truncated
  to the second, printed so that the datestamp parser reads it back exactly.
\<close>

theorem endpoint_timestamp:
  assumes "fst (endpoint cfg req d) = Render tpl c" and "dt_valid (req_utcnow req)"
  shows "tolerant_datestamp_to_datetime (ctx_timestamp c) = Some (replace_microsecond (req_utcnow req) 0)"
proof -
  have "ctx_timestamp c = isoformat (replace_microsecond (req_utcnow req) 0) @ ''Z''"
    using endpoint_context [OF assms(1)] by (simp add: base_context_def)
  with dt_valid_replace_microsecond [OF assms(2)] show ?thesis by (simp add: isoformat_roundtrip)
qed

text \<open>
  C19: along any sequence of requests from a store whose tokens are well formed and all
  keyed, every reachable store keeps the token table well formed, every stored token
  keyed (saved and then given its key, so resumable), and the records and the sets
  unchanged.
\<close>

theorem endpoint_served_store:
  assumes "served cfg d0 d" and "tokens_wf (key_generator cfg) d0" and "tokens_keyed d0"
  shows "tokens_wf (key_generator cfg) d \<and> tokens_keyed d \<and>
    db_records d = db_records d0 \<and> db_sets d = db_sets d0"
  using assms
proof (induction rule: served.induct)
  case (served_refl d0)
  then show ?case by simp
next
  case (served_step d0 d req)
  then have wf: "tokens_wf (key_generator cfg) d" and k: "tokens_keyed d" by simp_all
  have "tokens_wf (key_generator cfg) (snd (endpoint cfg req d))"
    by (rule ts_steps_tokens_wf [OF endpoint_steps wf])
  moreover have "tokens_keyed (snd (endpoint cfg req d))" by (rule endpoint_keyed [OF wf k])
  ultimately show ?case
    using served_step ts_steps_records [OF endpoint_steps [where cfg = cfg and req = req and d = d]] by simp
qed

text \<open>
  C20: Identify renders identify.xml with the base URL and the earliest datestamp,
  which is the least record timestamp of the store or 1990-01-01 when the store is
  empty; it writes nothing.
\<close>

theorem endpoint_identify:
  assumes "truthy_value (qd_get ''verb'' (req_GET req)) = Some ''Identify''"
  shows "\<exists>c. endpoint cfg req d = (Render ''oai/identify.xml'' c, d) \<and>
    ctx_baseURL c = Some (''http://'' @ req_host req @ ''/'' @ oai_endpoint_name cfg) \<and>
    (case ctx_earliestDatestamp c of
       Some (EarliestDatetime t) \<Rightarrow>
         (\<exists>r \<in> set (db_records d). rec_timestamp r = t) \<and> (\<forall>r \<in> set (db_records d). t \<le> rec_timestamp r)
     | Some (EarliestString s) \<Rightarrow> s = ''1990-01-01'' \<and> db_records d = []
     | None \<Rightarrow> False)"
proof (cases "earliest_record d")
  case None
  moreover from None have "db_records d = []" by (simp add: earliest_record_None)
  ultimately show ?thesis using assms by (simp add: endpoint_verb identify_def)
next
  case (Some r)
  with assms show ?thesis
    by (auto simp: endpoint_verb identify_def intro: earliest_record_in earliest_record_le)
qed

text \<open>
  C16: A valid fresh list request with an until date that matches more than one page
  crashes with NameError on queryParameter (line 140) and writes nothing.
\<close>

theorem endpoint_until_crash:
  assumes "truthy_value (qd_get ''verb'' (req_GET req)) = Some v" and "v \<in> set list_verbs"
    and "qd_get ''resumptionToken'' (req_GET req) = None"
    and "getListQuery (request_context req) (req_GET req) d = Inr (Inr q)"
    and "q_until q \<noteq> None" and "results_limit cfg < length (objects_filter q d)"
  shows "endpoint cfg req d = (Crash (NameError ''queryParameter''), d)"
  using assms by (simp add: endpoint_fresh handleListQuery_until)

text \<open>
  C23: A valid fresh list request returns the first results_limit matches and a token
  exactly when more matches remain.
\<close>

theorem endpoint_first_page:
  assumes "truthy_value (qd_get ''verb'' (req_GET req)) = Some v" and "v \<in> set list_verbs"
    and "qd_get ''resumptionToken'' (req_GET req) = None"
    and "getListQuery (request_context req) (req_GET req) d = Inr (Inr q)"
    and "q_until q = None \<or> length (objects_filter q d) \<le> results_limit cfg"
  shows "resp_matches (fst (endpoint cfg req d)) = Some (take (results_limit cfg) (objects_filter q d)) \<and>
    (resp_token (fst (endpoint cfg req d)) \<noteq> None \<longleftrightarrow> results_limit cfg < length (objects_filter q d))"
proof -
  have e: "endpoint cfg req d = handleListQuery cfg (request_context req) v q 0 d"
    using assms(1-4) by (rule endpoint_fresh)
  show ?thesis
    using assms(2,5)
  proof (cases rule: handleListQuery_cases [where off = 0 and cfg = cfg and q = q and d = d])
    case last
    with assms(2) show ?thesis by (simp add: e handleListQuery_last_page)
  next
    case until
    with assms(5) show ?thesis by simp
  next
    case (more t d')
    with assms(2) show ?thesis by (simp add: e handleListQuery_more)
  qed
qed

text \<open>
  C15: Resuming the token returned with the first page of a fresh list request is the
  same as running the original query from the next offset against the store after the
  first request.
\<close>

theorem endpoint_resume_roundtrip:
  assumes "tokens_wf (key_generator cfg) d" and "inj (key_generator cfg)"
    and "truthy_value (qd_get ''verb'' (req_GET req)) = Some v" and "v \<in> set list_verbs"
    and "qd_get ''resumptionToken'' (req_GET req) = None"
    and "getListQuery (request_context req) (req_GET req) d = Inr (Inr q)" and "q_until q = None"
    and "endpoint cfg req d = (r, d')" and "resp_token r = Some t" and "tok_key t = Some k"
    and "truthy_value (qd_get ''verb'' (req_GET req2)) = Some v"
    and "qd_get ''resumptionToken'' (req_GET req2) = Some k"
  shows "endpoint cfg req2 d' = handleListQuery cfg (request_context req2) v q (results_limit cfg) d'"
proof -
  have h: "handleListQuery cfg (request_context req) v q 0 d = (r, d')"
    using endpoint_fresh [OF assms(3-6)] assms(8) by simp
  have "resumeRequest cfg (request_context req2) v k d' =
      handleListQuery cfg (request_context req2) v q (0 + results_limit cfg) d'"
    by (rule resume_handle_roundtrip [OF assms(1,2,4,7) getListQuery_set_truthy [OF assms(6)] _ h
          assms(9,10)]) simp
  then show ?thesis using endpoint_resume [OF assms(11,4,12)] by simp
qed

text \<open>
  C33: bound on the page size: every page of records that \<open>endpoint\<close> returns, on any
  path (fresh query, resumption, error, \<open>Identify\<close>), has at most \<open>results_limit\<close>
  records.
\<close>

theorem endpoint_page_bound:
  assumes "resp_matches (fst (endpoint cfg req d)) = Some xs"
  shows "length xs \<le> results_limit cfg"
proof (cases "truthy_value (qd_get ''verb'' (req_GET req))")
  case None
  with assms show ?thesis by (simp add: endpoint_def)
next
  case (Some v)
  note e = endpoint_verb [OF Some, of cfg d]
  show ?thesis
  proof (cases "v = ''Identify'' \<or> v \<notin> set list_verbs")
    case True
    with assms e show ?thesis by (auto simp: identify_def split: if_splits)
  next
    case False
    show ?thesis
    proof (cases "qd_get ''resumptionToken'' (req_GET req)")
      case (Some k)
      with False assms e have "resp_matches (fst (resumeRequest cfg (request_context req) v k d)) = Some xs"
        by simp
      then show ?thesis by (rule resumeRequest_page_le [rotated]) simp
    next
      case None
      show ?thesis
      proof (cases "getListQuery (request_context req) (req_GET req) d")
        case (Inl ex)
        with None False assms e show ?thesis by simp
      next
        case (Inr res)
        then show ?thesis
        proof (cases res)
          case (Inl err)
          then obtain m where "err = formatError ''badArgument'' m (request_context req)"
            using getListQuery_error_code Inr by blast
          with Inr Inl None False assms e show ?thesis by simp
        next
          case (Inr q)
          with \<open>getListQuery (request_context req) (req_GET req) d = Inr res\<close> None False assms e
          have "resp_matches (fst (handleListQuery cfg (request_context req) v q 0 d)) = Some xs"
            by simp
          then show ?thesis by (rule handleListQuery_page_le [rotated]) simp
        qed
      qed
    qed
  qed
qed

text \<open>
  C34: bound on the response timestamp: for a valid request time, the \<open>responseDate\<close>
  string of every rendered response is exactly 20 characters, \<open>YYYY-MM-DDThh:mm:ssZ\<close>.
\<close>

theorem endpoint_timestamp_length:
  assumes "fst (endpoint cfg req d) = Render tpl c" and "dt_valid (req_utcnow req)"
  shows "length (ctx_timestamp c) = 20"
proof -
  have "ctx_timestamp c = isoformat (replace_microsecond (req_utcnow req) 0) @ ''Z''"
    using endpoint_context [OF assms(1)] by (simp add: base_context_def)
  moreover have "length (isoformat (replace_microsecond (req_utcnow req) 0)) = 19"
    using dt_valid_replace_microsecond [OF assms(2)] by (intro length_isoformat) simp_all
  ultimately show ?thesis by simp
qed

text \<open>
  C36: tokens are durable. A resumption request for a stored, keyed token returns the same
  page after any sequence of other requests as it would have returned before them:
  neither new tokens nor resumptions invalidate or move an existing token.
\<close>

theorem endpoint_token_durable:
  assumes "served cfg d d'" and "tokens_wf (key_generator cfg) d" and "inj (key_generator cfg)"
    and "t \<in> set (db_tokens d)" and "tok_key t = Some k"
    and "truthy_value (qd_get ''verb'' (req_GET req)) = Some (tok_queryType t)"
    and "tok_queryType t \<in> set list_verbs" and "qd_get ''resumptionToken'' (req_GET req) = Some k"
  shows "resp_matches (fst (endpoint cfg req d')) = resp_matches (fst (endpoint cfg req d))"
  using resumeRequest_matches_steps [OF served_steps [OF assms(1)] assms(2-5)]
  by (simp add: endpoint_resume [OF assms(6-8)])


end
