(* ===== verification/Harvest.thy ===== *)
theory Harvest
  imports Dispatcher
begin

text \<open>
  A harvesting client, the composition of the components that the spec's pagination
  contract is about (section 4.3 and the round-trip and scenario properties of section 8).
  The client sends a list request to \<open>endpoint\<close>; as long as the response carries a
  resumption token it sends \<open>verb=<verb>&resumptionToken=<key>\<close> (\<open>resume_request\<close>)
  and collects the responses. The loop need not stop, so it runs on fuel:
  \<open>harvest_pages\<close> returns \<open>None\<close> when the fuel runs out. \<open>harvested\<close> is the
  concatenation of the pages of the collected responses.
  The main results: with a positive page size the harvest returns after
  \<open>N div results_limit + 1\<close> requests (\<open>N\<close> the number of matches) and delivers every
  match exactly once, in order, one abstract page (\<open>pages\<close>) per response; with a page
  size of 0 it never returns, whatever the fuel.
\<close>

definition resume_request :: "request \<Rightarrow> string \<Rightarrow> string \<Rightarrow> request" where
  "resume_request req verb key = req\<lparr>req_GET := [(''verb'', verb), (''resumptionToken'', key)]\<rparr>"

fun harvest_pages :: "nat \<Rightarrow> config \<Rightarrow> request \<Rightarrow> string \<Rightarrow> response \<Rightarrow> db \<Rightarrow> (response list \<times> db) option" where
  "harvest_pages 0 cfg req verb r d = None"
| "harvest_pages (Suc n) cfg req verb r d =
     (case resp_token r of
        None \<Rightarrow> Some ([r], d)
      | Some t \<Rightarrow>
          (case tok_key t of
             None \<Rightarrow> Some ([r], d)
           | Some key \<Rightarrow>
               (let (r', d') = endpoint cfg (resume_request req verb key) d
                in map_option (\<lambda>(rs, d''). (r # rs, d'')) (harvest_pages n cfg req verb r' d'))))"

definition harvest :: "nat \<Rightarrow> config \<Rightarrow> request \<Rightarrow> string \<Rightarrow> db \<Rightarrow> (response list \<times> db) option" where
  "harvest fuel cfg req verb d = (let (r, d') = endpoint cfg req d in harvest_pages fuel cfg req verb r d')"

definition harvested :: "response list \<Rightarrow> oai_record list option" where
  "harvested rs = map_option concat (those (map resp_matches rs))"

text \<open>
  The abstract contract of pagination: the result list cut into pages of \<open>L\<close> records,
  the last page holding the rest; a result that fits one page (or a page size of 0) is one
  page, possibly empty.
\<close>

function pages :: "nat \<Rightarrow> 'a list \<Rightarrow> 'a list list" where
  "pages L xs = (if L = 0 \<or> length xs \<le> L then [xs] else take L xs # pages L (drop L xs))"
  by pat_completeness auto
termination by (relation "measure (\<lambda>(L, xs). length xs)") auto

declare pages.simps [simp del]

section \<open>Lemmas\<close>

lemma pages_last: "L = 0 \<or> length xs \<le> L \<Longrightarrow> pages L xs = [xs]"
  by (simp add: pages.simps)

lemma pages_more: "0 < L \<Longrightarrow> L < length xs \<Longrightarrow> pages L xs = take L xs # pages L (drop L xs)"
  by (subst pages.simps) simp

lemma concat_pages [simp]: "concat (pages L xs) = xs"
proof (induction L xs rule: pages.induct)
  case (1 L xs)
  show ?case
  proof (cases "L = 0 \<or> length xs \<le> L")
    case True
    then show ?thesis by (simp add: pages_last)
  next
    case False
    with "1.IH" show ?thesis by (simp add: pages_more)
  qed
qed

lemma those_map_Some [simp]: "those (map Some xs) = Some xs"
  by (induction xs) simp_all

lemma harvested_pages:
  assumes "map resp_matches rs = map Some (pages L xs)"
  shows "harvested rs = Some xs"
  using assms by (simp add: harvested_def)

lemma resume_request_params [simp]:
  "v \<noteq> [] \<Longrightarrow> truthy_value (qd_get ''verb'' (req_GET (resume_request req v k))) = Some v"
  "qd_get ''resumptionToken'' (req_GET (resume_request req v k)) = Some k"
  by (simp_all add: resume_request_def qd_get_def)

lemma list_verb_not_Nil: "v \<in> set list_verbs \<Longrightarrow> v \<noteq> []"
  by (auto simp: list_verbs_def)

lemma harvest_pages_from:
  assumes "tokens_wf (key_generator cfg) d" and "inj (key_generator cfg)" and "0 < results_limit cfg"
    and "v \<in> set list_verbs" and "q_set q \<noteq> Some []" and "ctx_token ctx = None"
    and "q_until q = None \<or> length (objects_filter q d) \<le> off + results_limit cfg"
    and "(length (objects_filter q d) - off) div results_limit cfg < n"
    and "handleListQuery cfg ctx v q off d = (r, d')"
  shows "\<exists>rs d''. harvest_pages n cfg req v r d' = Some (rs, d'') \<and>
    map resp_matches rs = map Some (pages (results_limit cfg) (drop off (objects_filter q d)))"
  using assms
proof (induction n arbitrary: off d ctx r d')
  case 0
  then show ?case by simp
next
  case (Suc n)
  let ?L = "results_limit cfg" and ?M = "objects_filter q d"
  show ?case
    using Suc.prems(4)
  proof (cases rule: handleListQuery_cases [where off = off and cfg = cfg and q = q and d = d])
    case last
    with Suc.prems(4,6,9) have "r = Render (''oai/'' @ v @ ''.xml'') (ctx\<lparr>ctx_matches := Some (take ?L (drop off ?M))\<rparr>)"
      and "d' = d" by (auto simp: handleListQuery_last_page)
    moreover from last have "take ?L (drop off ?M) = drop off ?M" by simp
    moreover have "pages ?L (drop off ?M) = [drop off ?M]" using last by (auto intro!: pages_last)
    ultimately show ?thesis using Suc.prems(6) by simp
  next
    case until
    with Suc.prems(7) show ?thesis by simp
  next
    case (more t d1)
    with Suc.prems(4,9) have r: "r = Render (''oai/'' @ v @ ''.xml'')
        (ctx\<lparr>ctx_token := Some t, ctx_matches := Some (take ?L (drop off ?M))\<rparr>)" and d1: "d1 = d'"
      by (simp_all add: handleListQuery_more)
    let ?kg = "key_generator cfg"
    have "resp_token r = Some t" by (simp add: r)
    then have "resp_token (fst (handleListQuery cfg ctx v q off d)) = Some t"
      using Suc.prems(9) by simp
    then have k: "tok_key t = Some (?kg (db_next_id d))"
      by (rule handleListQuery_token_key [OF Suc.prems(4,6)])
    let ?k = "?kg (db_next_id d)"
    let ?req2 = "resume_request req v ?k"
    let ?ctx2 = "request_context ?req2"
    have e: "endpoint cfg ?req2 d' = handleListQuery cfg ?ctx2 v q (off + ?L) d'"
    proof -
      have "endpoint cfg ?req2 d' = resumeRequest cfg ?ctx2 v ?k d'"
        using Suc.prems(4) by (simp add: endpoint_resume list_verb_not_Nil)
      also have "\<dots> = handleListQuery cfg ?ctx2 v q (off + ?L) d'"
        using resume_handle_roundtrip [OF Suc.prems(1,2,4) more(2) Suc.prems(5,6,9)]
          \<open>resp_token r = Some t\<close> k by blast
      finally show ?thesis .
    qed
    obtain r2 d2 where h2: "handleListQuery cfg ?ctx2 v q (off + ?L) d' = (r2, d2)" by force
    have steps: "(ts_step ?kg)\<^sup>*\<^sup>* d d'"
      using handleListQuery_steps [of cfg d ctx v q off] Suc.prems(9) by simp
    then have wf': "tokens_wf ?kg d'" using Suc.prems(1) by (rule ts_steps_tokens_wf)
    have M: "objects_filter q d' = ?M"
      using ts_steps_records [OF steps] by (intro objects_filter_records) simp
    have "(length ?M - off) div ?L = Suc ((length ?M - (off + ?L)) div ?L)"
      using Suc.prems(3) more(1) by (simp add: le_div_geq diff_diff_add)
    with Suc.prems(8) have fuel: "(length ?M - (off + ?L)) div ?L < n" by simp
    obtain rs2 d'' where rs2: "harvest_pages n cfg req v r2 d2 = Some (rs2, d'')"
      and hv: "map resp_matches rs2 = map Some (pages ?L (drop (off + ?L) (objects_filter q d')))"
      using Suc.IH [OF wf' Suc.prems(2,3,4,5) _ _ _ h2] more(2) fuel M by auto
    have "harvest_pages (Suc n) cfg req v r d' = Some (r # rs2, d'')"
      using k e h2 rs2 by (simp add: r)
    moreover have "pages ?L (drop off ?M) = take ?L (drop off ?M) # pages ?L (drop (off + ?L) ?M)"
      using Suc.prems(3) more(1) by (simp add: pages_more add.commute)
    ultimately show ?thesis using hv M by (simp add: r)
  qed
qed


lemma harvest_pages_zero_limit:
  assumes "tokens_wf (key_generator cfg) d" and "inj (key_generator cfg)" and "results_limit cfg = 0"
    and "v \<in> set list_verbs" and "q_set q \<noteq> Some []" and "q_until q = None" and "ctx_token ctx = None"
    and "objects_filter q d \<noteq> []"
    and "handleListQuery cfg ctx v q 0 d = (r, d')"
  shows "harvest_pages n cfg req v r d' = None"
  using assms
proof (induction n arbitrary: d ctx r d')
  case 0
  then show ?case by simp
next
  case (Suc n)
  show ?case
    using Suc.prems(4)
  proof (cases rule: handleListQuery_cases [where off = 0 and cfg = cfg and q = q and d = d])
    case last
    with Suc.prems(3,8) show ?thesis by simp
  next
    case until
    with Suc.prems(6) show ?thesis by simp
  next
    case (more t d1)
    let ?kg = "key_generator cfg"
    from more Suc.prems(4,9) have r: "r = Render (''oai/'' @ v @ ''.xml'')
        (ctx\<lparr>ctx_token := Some t, ctx_matches := Some (take 0 (drop 0 (objects_filter q d)))\<rparr>)"
      using Suc.prems(3) by (simp add: handleListQuery_more)
    have "resp_token (fst (handleListQuery cfg ctx v q 0 d)) = Some t" using Suc.prems(9) r by simp
    then have k: "tok_key t = Some (?kg (db_next_id d))"
      by (rule handleListQuery_token_key [OF Suc.prems(4,7)])
    let ?k = "?kg (db_next_id d)"
    let ?ctx2 = "request_context (resume_request req v ?k)"
    have e: "endpoint cfg (resume_request req v ?k) d' = handleListQuery cfg ?ctx2 v q 0 d'"
    proof -
      have "endpoint cfg (resume_request req v ?k) d' = resumeRequest cfg ?ctx2 v ?k d'"
        using Suc.prems(4) by (simp add: endpoint_resume list_verb_not_Nil)
      also have "\<dots> = handleListQuery cfg ?ctx2 v q (0 + results_limit cfg) d'"
        using resume_handle_roundtrip [OF Suc.prems(1,2,4,6,5,7,9)] r k by simp
      finally show ?thesis using Suc.prems(3) by simp
    qed
    obtain r2 d2 where h2: "handleListQuery cfg ?ctx2 v q 0 d' = (r2, d2)" by force
    have steps: "(ts_step ?kg)\<^sup>*\<^sup>* d d'"
      using handleListQuery_steps [of cfg d ctx v q 0] Suc.prems(9) by simp
    then have wf': "tokens_wf ?kg d'" using Suc.prems(1) by (rule ts_steps_tokens_wf)
    have M: "objects_filter q d' = objects_filter q d"
      using ts_steps_records [OF steps] by (intro objects_filter_records) simp
    have "harvest_pages n cfg req v r2 d2 = None"
      by (rule Suc.IH [OF wf' Suc.prems(2-6) _ _ h2]) (simp_all add: M Suc.prems(8))
    then show ?thesis using k e h2 by (simp add: r)
  qed
qed

text \<open>
  C1: A harvesting client that starts with a valid fresh list request and follows
  every resumption token receives every matching record exactly once and in timestamp
  order, provided the page size is positive, the query has no until date (or fits one
  page), the token store is well formed with an injective key generator, and the fuel
  exceeds N div page size.
\<close>

theorem harvest_complete:
  assumes "tokens_wf (key_generator cfg) d" and "inj (key_generator cfg)" and "0 < results_limit cfg"
    and "truthy_value (qd_get ''verb'' (req_GET req)) = Some v" and "v \<in> set list_verbs"
    and "qd_get ''resumptionToken'' (req_GET req) = None"
    and "getListQuery (request_context req) (req_GET req) d = Inr (Inr q)"
    and "q_until q = None \<or> length (objects_filter q d) \<le> results_limit cfg"
    and "length (objects_filter q d) div results_limit cfg < fuel"
  shows "\<exists>rs d'. harvest fuel cfg req v d = Some (rs, d') \<and> harvested rs = Some (objects_filter q d)"
proof -
  obtain r d' where h: "handleListQuery cfg (request_context req) v q 0 d = (r, d')" by force
  have "endpoint cfg req d = (r, d')" using endpoint_fresh [OF assms(4-7)] h by simp
  moreover have "\<exists>rs d''. harvest_pages fuel cfg req v r d' = Some (rs, d'') \<and>
      map resp_matches rs = map Some (pages (results_limit cfg) (drop 0 (objects_filter q d)))"
    by (rule harvest_pages_from [OF assms(1-3,5) getListQuery_set_truthy [OF assms(7)] _ _ _ h])
      (use assms(8,9) in simp_all)
  ultimately show ?thesis by (auto simp: harvest_def intro: harvested_pages)
qed

text \<open>
  C24: With a page size of 0 and a non-empty result, a harvest never returns: every
  response carries a new token and the pages are empty, so no amount of fuel suffices.
\<close>

theorem harvest_zero_page_size:
  assumes "tokens_wf (key_generator cfg) d" and "inj (key_generator cfg)" and "results_limit cfg = 0"
    and "truthy_value (qd_get ''verb'' (req_GET req)) = Some v" and "v \<in> set list_verbs"
    and "qd_get ''resumptionToken'' (req_GET req) = None"
    and "getListQuery (request_context req) (req_GET req) d = Inr (Inr q)"
    and "q_until q = None" and "objects_filter q d \<noteq> []"
  shows "harvest fuel cfg req v d = None"
proof -
  obtain r d' where h: "handleListQuery cfg (request_context req) v q 0 d = (r, d')" by force
  have "endpoint cfg req d = (r, d')" using endpoint_fresh [OF assms(4-7)] h by simp
  moreover have "harvest_pages fuel cfg req v r d' = None"
    by (rule harvest_pages_zero_limit [OF assms(1-3,5) getListQuery_set_truthy [OF assms(7)]
          assms(8) _ assms(9) h]) simp
  ultimately show ?thesis by (simp add: harvest_def)
qed

text \<open>
  C27: the harvest refines the abstract pagination contract: under the hypotheses of C1 the
  harvest returns, and its responses carry, in order, exactly the pages of
  \<open>results_limit\<close> records of the result list (\<open>pages\<close>), one response per page.
\<close>

theorem harvest_refines_pages:
  assumes "tokens_wf (key_generator cfg) d" and "inj (key_generator cfg)" and "0 < results_limit cfg"
    and "truthy_value (qd_get ''verb'' (req_GET req)) = Some v" and "v \<in> set list_verbs"
    and "qd_get ''resumptionToken'' (req_GET req) = None"
    and "getListQuery (request_context req) (req_GET req) d = Inr (Inr q)"
    and "q_until q = None \<or> length (objects_filter q d) \<le> results_limit cfg"
    and "length (objects_filter q d) div results_limit cfg < fuel"
  shows "\<exists>rs d'. harvest fuel cfg req v d = Some (rs, d') \<and>
    map resp_matches rs = map Some (pages (results_limit cfg) (objects_filter q d))"
proof -
  obtain r d' where h: "handleListQuery cfg (request_context req) v q 0 d = (r, d')" by force
  have "endpoint cfg req d = (r, d')" using endpoint_fresh [OF assms(4-7)] h by simp
  moreover have "\<exists>rs d''. harvest_pages fuel cfg req v r d' = Some (rs, d'') \<and>
      map resp_matches rs = map Some (pages (results_limit cfg) (drop 0 (objects_filter q d)))"
    by (rule harvest_pages_from [OF assms(1-3,5) getListQuery_set_truthy [OF assms(7)] _ _ _ h])
      (use assms(8,9) in simp_all)
  ultimately show ?thesis by (simp add: harvest_def)
qed

end
