(* ===== verification/UpdateSource.thy ===== *)
theory UpdateSource
  imports DateTime
begin

text \<open>
  The \<open>updateSource\<close> view of \<open>src/oai/views.py\<close> (lines 20--23): it looks the
  \<open>OaiSource\<close> up by primary key with Django's \<open>get_object_or_404\<close>, schedules the
  Celery task \<open>fetch_from_source\<close> to run now with \<open>pk\<close> as its argument, and renders
  \<open>oai/updateSource.html\<close> with the source. Its state is the \<open>OaiSource\<close> table and the
  task queue of the broker; it touches no table that the OAI endpoint reads or writes.
  The source model (\<open>oai/models.py\<close>), the task (\<open>oai/tasks.py\<close>) and the shortcut
  \<open>get_object_or_404\<close> are outside \<open>src/\<close> and modelled from their interfaces.
\<close>

record oai_source =
  src_pk :: nat
  src_name :: string
  src_url :: string

text \<open>A queued \<open>apply_async\<close> call: the task's name, its \<open>eta\<close> and its keyword arguments.\<close>

record fetch_job =
  job_task :: string
  job_eta :: datetime
  job_kwargs :: "(string \<times> nat) list"

record source_db =
  src_sources :: "oai_source list"
  src_queue :: "fetch_job list"

text \<open>
  \<open>get_object_or_404\<close> turns \<open>DoesNotExist\<close> into the HTTP 404 response and lets every
  other exception of \<open>Manager.get\<close> escape.
\<close>

datatype lookup_error = Http404 | Raised exc

definition get_object_or_404 :: "string \<Rightarrow> ('a \<Rightarrow> bool) \<Rightarrow> 'a list \<Rightarrow> lookup_error + 'a" where
  "get_object_or_404 model P rows =
     (case objects_get model P rows of
        Inl (DoesNotExist m) \<Rightarrow> Inl Http404
      | Inl e \<Rightarrow> Inl (Raised e)
      | Inr r \<Rightarrow> Inr r)"

datatype update_response = SourcePage string oai_source | NotFound | SourceCrash exc

definition apply_async :: "string \<Rightarrow> datetime \<Rightarrow> (string \<times> nat) list \<Rightarrow> source_db \<Rightarrow> source_db" where
  "apply_async task eta kwargs s =
     s\<lparr>src_queue := src_queue s @ [\<lparr>job_task = task, job_eta = eta, job_kwargs = kwargs\<rparr>]\<rparr>"

text \<open>\<open>now\<close> is the value of \<open>timezone.now()\<close> when the view runs.\<close>

definition updateSource :: "datetime \<Rightarrow> nat \<Rightarrow> source_db \<Rightarrow> update_response \<times> source_db" where
  "updateSource now pk s =
     (case get_object_or_404 ''OaiSource'' (\<lambda>src. src_pk src = pk) (src_sources s) of
        Inl Http404 \<Rightarrow> (NotFound, s)
      | Inl (Raised e) \<Rightarrow> (SourceCrash e, s)
      | Inr source \<Rightarrow>
          (SourcePage ''oai/updateSource.html'' source,
           apply_async ''fetch_from_source'' now [(''pk'', pk)] s))"

text \<open>A sequence of \<open>updateSource\<close> requests, in the order the server handles them.\<close>

definition updateSources :: "datetime \<Rightarrow> nat list \<Rightarrow> source_db \<Rightarrow> source_db" where
  "updateSources now pks s = fold (\<lambda>pk s. snd (updateSource now pk s)) pks s"

text \<open>
  The state invariant: primary keys are distinct, and every queued job is a
  \<open>fetch_from_source\<close> call whose \<open>pk\<close> names an existing source.
\<close>

definition job_ok :: "oai_source list \<Rightarrow> fetch_job \<Rightarrow> bool" where
  "job_ok srcs j \<longleftrightarrow>
     job_task j = ''fetch_from_source'' \<and>
     (\<exists>pk. job_kwargs j = [(''pk'', pk)] \<and> pk \<in> src_pk ` set srcs)"

definition sources_wf :: "source_db \<Rightarrow> bool" where
  "sources_wf s \<longleftrightarrow> distinct (map src_pk (src_sources s)) \<and> list_all (job_ok (src_sources s)) (src_queue s)"

section \<open>Lemmas\<close>

lemma get_object_or_404_pk:
  assumes "distinct (map src_pk srcs)"
  shows "get_object_or_404 m (\<lambda>src. src_pk src = pk) srcs =
    (case find (\<lambda>src. src_pk src = pk) srcs of None \<Rightarrow> Inl Http404 | Some src \<Rightarrow> Inr src)"
proof (cases "find (\<lambda>src. src_pk src = pk) srcs")
  case None
  then have "\<not> (\<exists>r \<in> set srcs. src_pk r = pk)" by (simp add: find_None_iff)
  with None show ?thesis by (simp add: get_object_or_404_def objects_get_none)
next
  case (Some src)
  then have src: "src \<in> set srcs" "src_pk src = pk" by (auto simp: find_Some_iff)
  have "\<forall>r \<in> set srcs. src_pk r = pk \<longleftrightarrow> r = src"
    using assms src by (auto dest: inj_onD [OF distinct_map [THEN iffD1, THEN conjunct2]])
  moreover have "distinct srcs" using assms by (simp add: distinct_map)
  ultimately have "objects_get m (\<lambda>src. src_pk src = pk) srcs = Inr src"
    using src(1) by (intro objects_get_unique)
  with Some show ?thesis by (simp add: get_object_or_404_def)
qed

lemma updateSource_eq:
  assumes "distinct (map src_pk (src_sources s))"
  shows "updateSource now pk s =
    (case find (\<lambda>src. src_pk src = pk) (src_sources s) of
       None \<Rightarrow> (NotFound, s)
     | Some source \<Rightarrow> (SourcePage ''oai/updateSource.html'' source,
                        apply_async ''fetch_from_source'' now [(''pk'', pk)] s))"
  using assms by (simp add: updateSource_def get_object_or_404_pk split: option.splits)

lemma updateSource_sources [simp]: "src_sources (snd (updateSource now pk s)) = src_sources s"
  by (simp add: updateSource_def apply_async_def split: sum.splits lookup_error.splits)

lemma updateSources_sources [simp]: "src_sources (updateSources now pks s) = src_sources s"
  by (induction pks arbitrary: s) (simp_all add: updateSources_def)

lemma find_pk_None: "find (\<lambda>src. src_pk src = pk) srcs = None \<longleftrightarrow> pk \<notin> src_pk ` set srcs"
  by (auto simp: find_None_iff)

lemma updateSource_queue:
  assumes "distinct (map src_pk (src_sources s))"
  shows "src_queue (snd (updateSource now pk s)) =
    src_queue s @ (if pk \<in> src_pk ` set (src_sources s)
                   then [\<lparr>job_task = ''fetch_from_source'', job_eta = now, job_kwargs = [(''pk'', pk)]\<rparr>]
                   else [])"
  using assms find_pk_None [of pk "src_sources s"]
  by (auto simp: updateSource_eq apply_async_def split: option.splits)

lemma find_pk_Some:
  assumes "distinct (map src_pk srcs)" and "source \<in> set srcs"
  shows "find (\<lambda>src. src_pk src = src_pk source) srcs = Some source"
proof -
  obtain s' where s': "find (\<lambda>src. src_pk src = src_pk source) srcs = Some s'"
    using assms(2) find_pk_None [of "src_pk source" srcs] by fastforce
  then have "s' \<in> set srcs" "src_pk s' = src_pk source" by (auto simp: find_Some_iff)
  with assms have "s' = source" by (auto dest: inj_onD [OF distinct_map [THEN iffD1, THEN conjunct2]])
  with s' show ?thesis by simp
qed

lemma updateSources_Cons:
  "updateSources now (pk # pks) s = updateSources now pks (snd (updateSource now pk s))"
  by (simp add: updateSources_def)

text \<open>
  C29: when the primary key names a source, \<open>updateSource\<close> renders
  \<open>oai/updateSource.html\<close> with that source and appends exactly one job to the queue: the
  task \<open>fetch_from_source\<close> with \<open>eta\<close> now and the keyword argument \<open>pk\<close>.
\<close>

theorem updateSource_found:
  assumes "distinct (map src_pk (src_sources s))" and "source \<in> set (src_sources s)"
  shows "updateSource now (src_pk source) s =
    (SourcePage ''oai/updateSource.html'' source,
     s\<lparr>src_queue := src_queue s @
        [\<lparr>job_task = ''fetch_from_source'', job_eta = now, job_kwargs = [(''pk'', src_pk source)]\<rparr>]\<rparr>)"
  using assms by (simp add: updateSource_eq find_pk_Some apply_async_def)

text \<open>
  C30: when no source has the primary key, \<open>updateSource\<close> answers HTTP 404 and schedules
  nothing.
\<close>

theorem updateSource_missing:
  assumes "pk \<notin> src_pk ` set (src_sources s)"
  shows "updateSource now pk s = (NotFound, s)"
proof -
  have "\<not> (\<exists>r \<in> set (src_sources s). src_pk r = pk)" using assms by auto
  then show ?thesis by (simp add: updateSource_def get_object_or_404_def objects_get_none)
qed

text \<open>
  C31: \<open>updateSource\<close> preserves the state invariant: the source table keeps distinct
  primary keys and every queued job fetches an existing source.
\<close>

theorem updateSource_wf:
  assumes "sources_wf s"
  shows "sources_wf (snd (updateSource now pk s))"
proof -
  from assms have d: "distinct (map src_pk (src_sources s))" by (simp add: sources_wf_def)
  with assms show ?thesis
    by (auto simp: sources_wf_def updateSource_queue job_ok_def)
qed

text \<open>
  C32: a sequence of \<open>updateSource\<close> requests queues, in request order, one fetch job per
  request whose key names a source, and nothing for the others.
\<close>

theorem updateSources_queue:
  assumes "distinct (map src_pk (src_sources s))"
  shows "src_queue (updateSources now pks s) =
    src_queue s @ map (\<lambda>pk. \<lparr>job_task = ''fetch_from_source'', job_eta = now, job_kwargs = [(''pk'', pk)]\<rparr>)
                      (filter (\<lambda>pk. pk \<in> src_pk ` set (src_sources s)) pks)"
  using assms
proof (induction pks arbitrary: s)
  case Nil
  then show ?case by (simp add: updateSources_def)
next
  case (Cons pk pks)
  let ?s1 = "snd (updateSource now pk s)"
  have "distinct (map src_pk (src_sources ?s1))" using Cons.prems by simp
  then have "src_queue (updateSources now pks ?s1) =
      src_queue ?s1 @ map (\<lambda>pk. \<lparr>job_task = ''fetch_from_source'', job_eta = now, job_kwargs = [(''pk'', pk)]\<rparr>)
                          (filter (\<lambda>pk. pk \<in> src_pk ` set (src_sources s)) pks)"
    using Cons.IH by simp
  then show ?case using Cons.prems by (simp add: updateSources_Cons updateSource_queue)
qed

end
