(* ===== verification/Spec2Isabelle.thy ===== *)
theory Spec2Isabelle
  imports Harvest UpdateSource
begin

text \<open>
  \<^bold>\<open>A verification development of the OAI-PMH endpoint of proaixy.\<close>

  The program is the Django view module \<open>src/oai/views.py\<close>. One HTTP view,
  \<open>endpoint\<close>, dispatches on the \<open>verb\<close> argument (the Verb Dispatcher of the spec);
  \<open>getListQuery\<close> validates the arguments of a list request (the Argument Validator);
  \<open>handleListQuery\<close>, \<open>createResumptionToken\<close> and \<open>resumeRequest\<close> page through
  the matching records and persist resumption tokens (the Pagination Engine);
  \<open>formatError\<close> renders an OAI error (the Error Formatter); \<open>identify\<close> answers
  \<open>Identify\<close>. The views talk to the Django ORM (\<open>OaiRecord\<close>, \<open>OaiSet\<close>,
  \<open>ResumptionToken\<close>), to \<open>oaipmh.datestamp\<close> for date parsing and to Python's
  \<open>datetime\<close> for the response timestamp.

  \<^bold>\<open>Theories.\<close>
  \<^item> \<open>Prelude\<close>: the Python and Django primitives the views use, each as a HOL function:
    \<open>Manager.get\<close> as \<open>objects_get\<close> (no row raises \<open>DoesNotExist\<close>, two rows raise
    \<open>MultipleObjectsReturned\<close>, both values of the exception type \<open>exc\<close>), truthiness of an
    optional string (\<open>truthy_value\<close>), \<open>str.split\<close>, a dict as an association list
    (\<open>dict_set\<close>, \<open>dict_pop\<close>), a \<open>QueryDict\<close> as its list of pairs (\<open>qd_get\<close> returns
    the last value of a key, \<open>qd_dict\<close> is \<open>request.GET.dict()\<close>), slicing (\<open>py_slice\<close>),
    and the lemmas on them that the components share.
  \<^item> \<open>DateTime\<close>: \<open>datetime\<close> values with their order, \<open>replace(microsecond=0)\<close>,
    \<open>isoformat\<close>, Python's \<open>int()\<close> on a string and
    \<open>tolerant_datestamp_to_datetime\<close>. These live outside \<open>src/\<close> and are modelled from
    their documented behaviour. The main lemma is the round trip
    \<open>isoformat_roundtrip\<close>: the parser reads back every printed timestamp.
  \<^item> \<open>Store\<close>: the database as a record of tables (\<open>db\<close>: records, set names,
    resumption tokens and the next primary key) and the ORM queries the views issue
    (\<open>objects_filter\<close> for the list query, \<open>earliest_record\<close>, \<open>set_get\<close>,
    \<open>token_lookup\<close>) together with the two writes of the token store, \<open>token_create\<close>
    (the first \<open>save()\<close>, which allocates the primary key) and \<open>token_assign_key\<close>
    (\<open>genkey()\<close>). \<open>ts_step\<close> is the token store as an inductive step relation.
    Its invariant \<open>tokens_wf\<close> says that ids are distinct and below the next id, and
    that every key is the generator applied to the row's id. It is preserved by
    every step (rule induction over \<open>rtranclp\<close>), so with an injective generator keys
    are unique in every reachable store. That uniqueness comes from the model of
    \<open>genkey\<close> (\<open>oai/models.py\<close>, outside the sources): the key of a row is the
    generator applied to that row's id. What depends on the views' code is that a token
    is saved before its key is generated, so that every stored token has a key; the
    invariant over served requests in \<open>Dispatcher\<close> states this.
    \<open>token_index\<close> abstracts the token table to a map from a verb and a key to
    the token. Under the invariant, the lookup of \<open>resumeRequest\<close> reads that map. The
    save/genkey pair of \<open>createResumptionToken\<close> inserts into it under a fresh key
    (refinement lemmas in the style of a map specification).
  \<^item> \<open>Response\<close>: the template context (\<open>oai_context\<close>), the view's result
    (\<open>response\<close>: a rendered template, an escaping exception, or no response) and
    \<open>formatError\<close>.
  \<^item> \<open>Validator\<close>: \<open>getListQuery\<close> (lines 64--118), translated step by step over the
    popped dict: the required \<open>metadataPrefix\<close>, the set lookup, the two dates, the
    \<open>from\<close>/\<open>until\<close> check and the illegal-argument loop. That loop reports the first
    key of the dict of line 73, whose iteration order is hash order in Python 2. The
    model iterates in first-occurrence order, and the lemma about this branch only says
    that some illegal argument of the request is named. \<open>getListQuery_eq\<close>
    characterises it in terms of the raw parameters. The lemmas give every outcome: the
    missing prefix, a bad date, the misordered dates, the unknown set (an uncaught
    \<open>DoesNotExist\<close>), an illegal argument and success. \<open>query_params\<close> is the encoding of a
    list query as the parameters a harvester sends. Validating it gives the query back: a
    round trip that rests on \<open>isoformat_roundtrip\<close>. \<open>query_typed\<close> is the typed list query of the
    spec. Every query the validator returns satisfies it.
  \<^item> \<open>Pagination\<close>: \<open>handleListQuery\<close>, \<open>createResumptionToken\<close>,
    \<open>resumeRequest\<close> (lines 121--159), each returning the response and the database
    after it. Lemmas: the page and the token on every branch, the token's fields, the two
    boundary cases of the spec, idempotence of resumption and the crash on an unknown key.
  \<^item> \<open>Dispatcher\<close>: the request (host, path, GET parameters, the time read by
    \<open>utcnow\<close>), \<open>endpoint\<close> and \<open>identify\<close>. Lemmas: the routing of every verb,
    the precedence of \<open>resumptionToken\<close>, the closed error taxonomy, the timestamp
    round trip, the store invariant across a request, and the token round trip
    (resuming the token of a first page is the fresh query run from the next offset).
    \<open>served\<close> is the set of stores reachable by answering any sequence of requests;
    along it the token table stays well formed and every stored token keeps its key, and a
    stored token keeps resuming to the same page. Under those invariants the only exceptions
    that escape \<open>endpoint\<close> are the three documented ones. Bounds: every page has at most
    \<open>results_limit\<close> records, and the response timestamp has exactly 20 characters.
  \<^item> \<open>Harvest\<close>: a harvesting client that follows the tokens. It runs on fuel because
    with a page size of 0 it never ends. With \<open>N\<close> matches and page size \<open>L > 0\<close>,
    \<open>N div L + 1\<close> responses carry the whole result, so any fuel above \<open>N div L\<close> is
    enough: the harvest then returns and delivers every match exactly once, in order.
    More precisely, it refines the abstract contract \<open>pages\<close>: the responses carry, one
    by one, the pages of \<open>L\<close> records of the result list.
    With \<open>L = 0\<close> it returns for no fuel at all.
  \<^item> \<open>UpdateSource\<close>: the \<open>updateSource\<close> view (lines 20--23) over its own state,
    the \<open>OaiSource\<close> table and the task queue (\<open>source_db\<close>). \<open>get_object_or_404\<close>
    turns a missing source into HTTP 404, and \<open>apply_async\<close> appends the queued
    \<open>fetch_from_source\<close> call. The lemmas give the found and the missing case, the
    invariant \<open>sources_wf\<close> (distinct keys, every job fetches an existing source), and the
    queue after any sequence of requests.
  \<^item> this theory: an example configuration and store (page size 2, three records) on which
    every claim with hypotheses is applied, and the spec's pagination scenario evaluated on
    them.

  \<^bold>\<open>Correspondence.\<close> Each view takes the database as an explicit argument and
  returns it with its response. The endpoint's only writes are the two \<open>save()\<close> calls
  of \<open>createResumptionToken\<close>; \<open>updateSource\<close> only appends to the task queue. An exception that escapes a view is the response
  \<open>Crash e\<close>. Python integers are HOL integers; counts and offsets, which are never
  negative, are naturals, and the comparison of line 127 is made on integers as in the
  source. The configuration \<open>results_limit\<close>, \<open>oai_endpoint_name\<close> and the key
  generator of \<open>ResumptionToken.genkey\<close> are fields of \<open>config\<close>.

  In \<open>UpdateSource\<close> the primary key is the integer that Django's lookup
  converts the URL argument to. The queued \<open>kwargs\<close> are written with that number,
  where the code passes the URL string itself.

  \<^bold>\<open>Not modelled.\<close> The XML templates and the HTTP transport are outside the
  model: a response is the template name and its context. The Celery task
  \<open>fetch_from_source\<close> (\<open>oai/tasks.py\<close>) that \<open>updateSource\<close> schedules is not part
  of the sources; the model records the queued call and does not run it. \<open>to_kv_pairs\<close>
  (\<open>oai/utils.py\<close>) is the identity on the parameter list, as the spec describes it.
  \<open>timezone.make_naive\<close> on a stored UTC timestamp is the identity, because the model
  stores naive UTC values.
\<close>

section \<open>An example configuration, store and requests\<close>

text \<open>
  A page size of 2, keys generated as the decimal digits of the id, a store of three
  \<open>oai_dc\<close> records inserted out of timestamp order, one known set, no tokens yet.
  \<open>ex_db1\<close> is the store after the first page of a \<open>ListRecords\<close> harvest: it holds the
  token \<open>ex_tok\<close> of id 1 and key \<open>1\<close>.
\<close>

definition ex_cfg :: config where
  "ex_cfg = \<lparr>results_limit = 2, oai_endpoint_name = ''oai'', key_generator = show_nat\<rparr>"
definition ex_rec :: "nat \<Rightarrow> oai_record" where
  "ex_rec n = \<lparr>rec_identifier = ''oai:example:'' @ show_nat n, rec_timestamp = DateTime 2020 1 (int n) 0 0 0 0,
     rec_format = ''oai_dc'', rec_set = None\<rparr>"
definition ex_db :: db where
  "ex_db = \<lparr>db_records = [ex_rec 3, ex_rec 1, ex_rec 2], db_sets = [''physics''], db_tokens = [], db_next_id = 1\<rparr>"
definition ex_req :: "querydict \<Rightarrow> request" where
  "ex_req get = \<lparr>req_host = ''example.org'', req_full_path = ''/oai'', req_GET = get,
     req_utcnow = DateTime 2024 5 17 12 30 45 123456\<rparr>"
definition ex_query :: list_query where
  "ex_query = \<lparr>q_format = ''oai_dc'', q_set = None, q_from = None, q_until = None\<rparr>"
definition ex_list_get :: querydict where
  "ex_list_get = [(''verb'', ''ListRecords''), (''metadataPrefix'', ''oai_dc'')]"
definition ex_tok :: resumption_token where
  "ex_tok = \<lparr>tok_id = Some 1, tok_queryType = ''ListRecords'', tok_metadataPrefix = ''oai_dc'',
     tok_offset = 2, tok_cursor = 0, tok_total_count = 3, tok_fro = None, tok_until = None,
     tok_set = None, tok_key = Some ''1''\<rparr>"
definition ex_db1 :: db where
  "ex_db1 = ex_db\<lparr>db_tokens := [ex_tok], db_next_id := 2\<rparr>"

definition ex_ctx :: oai_context where
  "ex_ctx = request_context (ex_req ex_list_get)"

definition ex_cfg0 :: config where
  "ex_cfg0 = ex_cfg\<lparr>results_limit := 0\<rparr>"

definition ex_until_get :: querydict where
  "ex_until_get = [(''verb'', ''ListRecords''), (''metadataPrefix'', ''oai_dc''), (''until'', ''2030-01-01'')]"

definition ex_query2 :: list_query where
  "ex_query2 = \<lparr>q_format = ''oai_dc'', q_set = Some ''physics'', q_from = Some (DateTime 2020 1 1 0 0 0 0),
     q_until = Some (DateTime 2020 6 1 0 0 0 0)\<rparr>"

definition ex_source :: oai_source where
  "ex_source = \<lparr>src_pk = 7, src_name = ''arXiv'', src_url = ''http://export.arxiv.org/oai2''\<rparr>"

definition ex_sdb :: source_db where
  "ex_sdb = \<lparr>src_sources = [ex_source], src_queue = []\<rparr>"

definition ex_now :: datetime where
  "ex_now = DateTime 2024 5 17 12 30 45 123456"

definition ex_typed_get :: querydict where
  "ex_typed_get = [(''verb'', ''ListRecords''), (''metadataPrefix'', ''oai_dc''), (''set'', ''physics''),
     (''from'', ''2020-01-01''), (''until'', ''2020-06-01'')]"

section \<open>Evaluation on the example\<close>

lemmas ex_defs = ex_cfg_def ex_db_def ex_req_def ex_query_def ex_list_get_def ex_tok_def ex_db1_def

lemma ex_req_fields [simp]:
  "req_GET (ex_req g) = g" "req_host (ex_req g) = ''example.org''"
  "req_utcnow (ex_req g) = DateTime 2024 5 17 12 30 45 123456"
  by (simp_all add: ex_req_def)

lemma ex_list_get_params [simp]:
  "truthy_value (qd_get ''verb'' ex_list_get) = Some ''ListRecords''"
  "qd_get ''resumptionToken'' ex_list_get = None"
  by (simp_all add: ex_list_get_def qd_get_def)

lemma ex_ctx_token [simp]: "ctx_token ex_ctx = None"
  by (simp add: ex_ctx_def)

lemma ex_cfg_fields [simp]: "results_limit ex_cfg = 2" "key_generator ex_cfg = show_nat"
  by (simp_all add: ex_cfg_def)

lemma ex_getListQuery: "getListQuery ctx ex_list_get ex_db = Inr (Inr ex_query)"
  by (simp add: getListQuery_eq qd_get_def check_set_def leftover_args_def list_args_def qd_dict_def
      dict_set_def ex_query_def ex_list_get_def)

lemma ex_objects_filter: "objects_filter ex_query ex_db = [ex_rec 1, ex_rec 2, ex_rec 3]"
  by (simp add: objects_filter_def ex_db_def ex_query_def record_matches_def ex_rec_def less_eq_datetime_def)

lemma show_nat_inj: "inj show_nat"
  by (rule inj_on_inverseI [where g = digits_val]) simp

lemma show_nat_one: "show_nat 1 = ''1''" "show_nat (Suc 0) = ''1''"
  by code_simp+

lemma ex_tokens_wf: "tokens_wf show_nat ex_db" "tokens_wf show_nat ex_db1"
  by (simp_all add: tokens_wf_def ex_db_def ex_db1_def ex_tok_def token_row_ok_def show_nat_one)

lemma ex_query_fields [simp]:
  "q_format ex_query = ''oai_dc''" "q_set ex_query = None" "q_from ex_query = None" "q_until ex_query = None"
  by (simp_all add: ex_query_def)

lemma ex_create:
  "createResumptionToken ex_cfg ''ListRecords'' ex_query 2 3 ex_db = Inr (ex_tok, ex_db1)"
  by (simp add: createResumptionToken_eq token_object_def token_create_def token_assign_key_def
      ex_defs show_nat_one)

lemma ex_handle0:
  "handleListQuery ex_cfg ctx ''ListRecords'' ex_query 0 ex_db =
    (Render ''oai/ListRecords.xml'' (ctx\<lparr>ctx_token := Some ex_tok, ctx_matches := Some [ex_rec 1, ex_rec 2]\<rparr>), ex_db1)"
proof -
  have c: "createResumptionToken ex_cfg ''ListRecords'' ex_query (0 + results_limit ex_cfg)
      (length (objects_filter ex_query ex_db)) ex_db = Inr (ex_tok, ex_db1)"
    using ex_create by (simp add: ex_objects_filter numeral_eq_Suc ex_cfg_def)
  show ?thesis
    by (subst handleListQuery_more [OF _ _ _ c])
       (simp_all add: ex_objects_filter ex_cfg_def list_verbs_def)
qed

lemma ex_endpoint0:
  "endpoint ex_cfg (ex_req ex_list_get) ex_db =
    (Render ''oai/ListRecords.xml'' (ex_ctx\<lparr>ctx_token := Some ex_tok, ctx_matches := Some [ex_rec 1, ex_rec 2]\<rparr>), ex_db1)"
proof -
  have "endpoint ex_cfg (ex_req ex_list_get) ex_db =
      handleListQuery ex_cfg (request_context (ex_req ex_list_get)) ''ListRecords'' ex_query 0 ex_db"
    by (rule endpoint_fresh) (simp_all add: list_verbs_def ex_getListQuery)
  then show ?thesis by (simp add: ex_handle0 ex_ctx_def)
qed

section \<open>The claims applied to the example\<close>

theorem harvest_complete_witness:
  "\<exists>rs d'. harvest 2 ex_cfg (ex_req ex_list_get) ''ListRecords'' ex_db = Some (rs, d') \<and>
     harvested rs = Some [ex_rec 1, ex_rec 2, ex_rec 3]"
proof -
  have "\<exists>rs d'. harvest 2 ex_cfg (ex_req ex_list_get) ''ListRecords'' ex_db = Some (rs, d') \<and>
     harvested rs = Some (objects_filter ex_query ex_db)"
    by (rule harvest_complete)
      (simp_all add: ex_tokens_wf show_nat_inj ex_getListQuery ex_objects_filter list_verbs_def)
  then show ?thesis by (simp add: ex_objects_filter)
qed

theorem handleListQuery_token_fields_witness:
  "tok_queryType ex_tok = ''ListRecords'' \<and> tok_offset ex_tok = 2 \<and> tok_cursor ex_tok = 0 \<and>
   tok_total_count ex_tok = 3 \<and> tok_offset ex_tok < tok_total_count ex_tok"
  using handleListQuery_token_fields [where qt = "''ListRecords''" and ctx = ex_ctx and cfg = ex_cfg
      and q = ex_query and off = 0 and d = ex_db and t = ex_tok]
  by (simp add: ex_handle0 list_verbs_def ex_objects_filter)

theorem endpoint_resumptionToken_precedence_witness:
  "resp_matches (fst (endpoint ex_cfg (ex_req [(''verb'', ''ListRecords''), (''resumptionToken'', ''1''), (''metadataPrefix'', ''oai_dc'')]) ex_db1)) =
     resp_matches (fst (endpoint ex_cfg (ex_req [(''verb'', ''ListRecords''), (''resumptionToken'', ''1'')]) ex_db1)) \<and>
   resp_token (fst (endpoint ex_cfg (ex_req [(''verb'', ''ListRecords''), (''resumptionToken'', ''1''), (''metadataPrefix'', ''oai_dc'')]) ex_db1)) =
     resp_token (fst (endpoint ex_cfg (ex_req [(''verb'', ''ListRecords''), (''resumptionToken'', ''1'')]) ex_db1)) \<and>
   snd (endpoint ex_cfg (ex_req [(''verb'', ''ListRecords''), (''resumptionToken'', ''1''), (''metadataPrefix'', ''oai_dc'')]) ex_db1) =
     snd (endpoint ex_cfg (ex_req [(''verb'', ''ListRecords''), (''resumptionToken'', ''1'')]) ex_db1)"
  by (rule endpoint_resumptionToken_precedence [where v = "''ListRecords''" and k = "''1''"])
    (simp_all add: qd_get_def list_verbs_def)

lemma ex_dates:
  "tolerant_datestamp_to_datetime ''2021-01-01'' = Some (DateTime 2021 1 1 0 0 0 0)"
  "tolerant_datestamp_to_datetime ''2020-01-01'' = Some (DateTime 2020 1 1 0 0 0 0)"
  "tolerant_datestamp_to_datetime ''2020-01-02'' = Some (DateTime 2020 1 2 0 0 0 0)"
  "tolerant_datestamp_to_datetime ''2030-01-01'' = Some (DateTime 2030 1 1 0 0 0 0)"
  "tolerant_datestamp_to_datetime ''2020-06-01'' = Some (DateTime 2020 6 1 0 0 0 0)"
  by code_simp+

theorem getListQuery_from_after_until_witness:
  "getListQuery ex_ctx [(''verb'', ''ListRecords''), (''metadataPrefix'', ''oai_dc''),
      (''from'', ''2021-01-01''), (''until'', ''2020-01-01'')] ex_db =
   Inr (Inl (formatError ''badArgument'' ''\"from\" should not be after \"until\".'' ex_ctx))"
  by (rule getListQuery_from_after_until [where fs = "''2021-01-01''" and us = "''2020-01-01''"
        and f = "DateTime 2021 1 1 0 0 0 0" and u = "DateTime 2020 1 1 0 0 0 0"])
    (simp_all add: qd_get_def check_set_def ex_dates less_datetime_def)

theorem getListQuery_success_witness:
  "getListQuery ex_ctx [(''verb'', ''ListRecords''), (''metadataPrefix'', ''oai_dc''), (''from'', ''2020-01-02'')] ex_db =
   Inr (Inr \<lparr>q_format = ''oai_dc'', q_set = None, q_from = Some (DateTime 2020 1 2 0 0 0 0), q_until = None\<rparr>)"
  by (rule getListQuery_success)
    (simp_all add: qd_get_def check_set_def ex_dates parse_date_param_Some list_query_ok_def
      leftover_args_def list_args_def qd_dict_def dict_set_def)

theorem getListQuery_result_witness:
  "truthy_value (qd_get ''metadataPrefix'' ex_list_get) = Some ''oai_dc'' \<and> list_query_ok ex_query \<and>
   leftover_args ex_list_get = []"
  using getListQuery_result [OF ex_getListQuery] by simp

theorem getListQuery_missing_metadataPrefix_witness:
  "getListQuery ex_ctx [(''verb'', ''ListRecords'')] ex_db =
   Inr (Inl (formatError ''badArgument'' ''The metadataPrefix argument is required.'' ex_ctx))"
  by (rule getListQuery_missing_metadataPrefix) (simp add: qd_get_def)

theorem getListQuery_unknown_set_witness:
  "getListQuery ex_ctx [(''verb'', ''ListRecords''), (''metadataPrefix'', ''oai_dc''), (''set'', ''chemistry'')] ex_db =
   Inl (DoesNotExist ''OaiSet'')"
  by (rule getListQuery_unknown_set [where s = "''chemistry''"]) (simp_all add: qd_get_def ex_db_def)

theorem getListQuery_illegal_argument_witness:
  "\<exists>k'. k' \<in> fst ` set [(''verb'', ''ListRecords''), (''foo'', ''1''), (''metadataPrefix'', ''oai_dc''), (''bar'', ''2'')] \<and>
     k' \<notin> set list_args \<and>
     getListQuery ex_ctx [(''verb'', ''ListRecords''), (''foo'', ''1''), (''metadataPrefix'', ''oai_dc''), (''bar'', ''2'')] ex_db =
       Inr (Inl (formatError ''badArgument'' (''The argument \"'' @ k' @ ''\" is illegal.'') ex_ctx))"
  by (rule getListQuery_illegal_argument [where k = "''bar''" and fmt = "''oai_dc''" and qs = None
        and qf = None and qu = None])
    (simp_all add: qd_get_def check_set_def list_query_ok_def list_args_def)

theorem handleListQuery_token_iff_witness:
  "resp_token (fst (handleListQuery ex_cfg ex_ctx ''ListRecords'' ex_query 0 ex_db)) \<noteq> None \<longleftrightarrow>
   0 + results_limit ex_cfg < length (objects_filter ex_query ex_db)"
  by (rule handleListQuery_token_iff) (simp_all add: list_verbs_def)

theorem handleListQuery_exact_last_page_witness:
  "resp_token (fst (handleListQuery ex_cfg ex_ctx ''ListRecords'' ex_query 1 ex_db)) = None \<and>
   map_option length (resp_matches (fst (handleListQuery ex_cfg ex_ctx ''ListRecords'' ex_query 1 ex_db))) = Some 2"
  using handleListQuery_exact_last_page [where qt = "''ListRecords''" and ctx = ex_ctx and cfg = ex_cfg
      and q = ex_query and off = 1 and d = ex_db]
  by (simp add: list_verbs_def ex_objects_filter)

theorem handleListQuery_past_end_witness:
  "resp_token (fst (handleListQuery ex_cfg ex_ctx ''ListRecords'' ex_query 3 ex_db)) = None \<and>
   resp_matches (fst (handleListQuery ex_cfg ex_ctx ''ListRecords'' ex_query 3 ex_db)) = Some []"
  by (rule handleListQuery_past_end) (simp_all add: list_verbs_def ex_objects_filter)

theorem resumeRequest_idempotent_witness:
  "resp_matches (fst (resumeRequest ex_cfg ex_ctx ''ListRecords'' ''1'' (snd (resumeRequest ex_cfg ex_ctx ''ListRecords'' ''1'' ex_db1)))) =
   resp_matches (fst (resumeRequest ex_cfg ex_ctx ''ListRecords'' ''1'' ex_db1))"
  by (rule resumeRequest_idempotent) (simp_all add: ex_tokens_wf show_nat_inj)

theorem resumeRequest_unknown_key_witness:
  "resumeRequest ex_cfg ex_ctx ''ListRecords'' ''7'' ex_db1 = (Crash (DoesNotExist ''ResumptionToken''), ex_db1)"
  by (rule resumeRequest_unknown_key) (simp add: ex_db1_def ex_tok_def)

theorem endpoint_resume_roundtrip_witness:
  "endpoint ex_cfg (ex_req [(''verb'', ''ListRecords''), (''resumptionToken'', ''1'')]) ex_db1 =
   handleListQuery ex_cfg (request_context (ex_req [(''verb'', ''ListRecords''), (''resumptionToken'', ''1'')]))
     ''ListRecords'' ex_query (results_limit ex_cfg) ex_db1"
  by (rule endpoint_resume_roundtrip [where d = ex_db and req = "ex_req ex_list_get"
      and r = "fst (endpoint ex_cfg (ex_req ex_list_get) ex_db)" and t = ex_tok and k = "''1''"])
    (simp_all add: ex_tokens_wf show_nat_inj list_verbs_def ex_getListQuery ex_endpoint0 ex_tok_def,
      simp_all add: qd_get_def ex_list_get_def)


lemma ex_until_query:
  "getListQuery ctx ex_until_get ex_db = Inr (Inr (ex_query\<lparr>q_until := Some (DateTime 2030 1 1 0 0 0 0)\<rparr>))"
  by (simp add: getListQuery_eq qd_get_def check_set_def leftover_args_def list_args_def qd_dict_def
      dict_set_def ex_query_def ex_until_get_def ex_dates parse_date_param_Some list_query_ok_def)

theorem endpoint_until_crash_witness:
  "endpoint ex_cfg (ex_req ex_until_get) ex_db = (Crash (NameError ''queryParameter''), ex_db)"
  by (rule endpoint_until_crash [where v = "''ListRecords''"
        and q = "ex_query\<lparr>q_until := Some (DateTime 2030 1 1 0 0 0 0)\<rparr>"])
    (simp_all add: ex_until_query list_verbs_def, simp_all add: ex_until_get_def qd_get_def objects_filter_def
      ex_db_def ex_query_def record_matches_def ex_rec_def less_eq_datetime_def)

theorem endpoint_error_codes_witness: "''badVerb'' \<in> set oai_error_codes"
  by (rule endpoint_error_codes [where cfg = ex_cfg and req = "ex_req []" and d = ex_db
        and msg = "''No verb specified!''"]) (simp add: endpoint_def qd_get_def)

theorem endpoint_timestamp_witness:
  "tolerant_datestamp_to_datetime (ctx_timestamp (base_context (ex_req []))) =
   Some (DateTime 2024 5 17 12 30 45 0)"
  using endpoint_timestamp [where cfg = ex_cfg and req = "ex_req []" and d = ex_db and tpl = "''oai/error.xml''"
      and c = "(base_context (ex_req []))\<lparr>ctx_errorCode := Some ''badVerb'', ctx_errorMessage := Some ''No verb specified!''\<rparr>"]
  by (simp add: endpoint_def qd_get_def formatError_def days_in_month_def)

theorem endpoint_identify_witness:
  "\<exists>c. endpoint ex_cfg (ex_req [(''verb'', ''Identify'')]) ex_db = (Render ''oai/identify.xml'' c, ex_db) \<and>
    ctx_baseURL c = Some (''http://'' @ ''example.org'' @ ''/'' @ ''oai'') \<and>
    (case ctx_earliestDatestamp c of
       Some (EarliestDatetime t) \<Rightarrow>
         (\<exists>r \<in> set (db_records ex_db). rec_timestamp r = t) \<and> (\<forall>r \<in> set (db_records ex_db). t \<le> rec_timestamp r)
     | Some (EarliestString s) \<Rightarrow> s = ''1990-01-01'' \<and> db_records ex_db = []
     | None \<Rightarrow> False)"
  using endpoint_identify [where cfg = ex_cfg and req = "ex_req [(''verb'', ''Identify'')]" and d = ex_db]
  by (simp add: qd_get_def ex_cfg_def)

theorem endpoint_missing_verb_witness:
  "endpoint ex_cfg (ex_req []) ex_db = (formatError ''badVerb'' ''No verb specified!'' (base_context (ex_req [])), ex_db)"
  by (rule endpoint_missing_verb) (simp add: qd_get_def)

theorem endpoint_unknown_verb_witness:
  "endpoint ex_cfg (ex_req [(''verb'', ''GetRecord'')]) ex_db =
   (formatError ''badVerb'' (''Verb \"'' @ ''GetRecord'' @ ''\" is not implemented.'')
     (request_context (ex_req [(''verb'', ''GetRecord'')])), ex_db)"
  by (rule endpoint_unknown_verb) (simp_all add: qd_get_def list_verbs_def)

theorem endpoint_first_page_witness:
  "resp_matches (fst (endpoint ex_cfg (ex_req ex_list_get) ex_db)) = Some [ex_rec 1, ex_rec 2] \<and>
   resp_token (fst (endpoint ex_cfg (ex_req ex_list_get) ex_db)) \<noteq> None"
  using endpoint_first_page [where cfg = ex_cfg and req = "ex_req ex_list_get" and d = ex_db
      and v = "''ListRecords''" and q = ex_query]
  by (simp add: list_verbs_def ex_getListQuery ex_objects_filter)

theorem harvest_zero_page_size_witness:
  "harvest 5 ex_cfg0 (ex_req ex_list_get) ''ListRecords'' ex_db = None"
  by (rule harvest_zero_page_size [where q = ex_query])
    (simp_all add: ex_cfg0_def ex_tokens_wf show_nat_inj list_verbs_def ex_getListQuery ex_objects_filter)

theorem token_lookup_refines_witness:
  "token_lookup ''ListRecords'' ''1'' ex_db1 =
   (case token_index ex_db1 (''ListRecords'', ''1'') of
      Some t \<Rightarrow> Inr t
    | None \<Rightarrow> Inl (DoesNotExist ''ResumptionToken''))"
  by (rule token_lookup_refines [where keygen = show_nat]) (simp_all add: ex_tokens_wf show_nat_inj)

theorem createResumptionToken_refines_witness:
  "\<exists>k. tok_key ex_tok = Some k \<and> token_index ex_db (''ListRecords'', k) = None \<and>
     token_index ex_db1 = (token_index ex_db)((''ListRecords'', k) \<mapsto> ex_tok)"
  by (rule createResumptionToken_refines [OF _ _ ex_create]) (simp_all add: ex_tokens_wf show_nat_inj)

theorem harvest_refines_pages_witness:
  "\<exists>rs d'. harvest 2 ex_cfg (ex_req ex_list_get) ''ListRecords'' ex_db = Some (rs, d') \<and>
     map resp_matches rs = [Some [ex_rec 1, ex_rec 2], Some [ex_rec 3]]"
proof -
  have p: "pages 2 [ex_rec 1, ex_rec 2, ex_rec 3] = [[ex_rec 1, ex_rec 2], [ex_rec 3]]"
    by (simp add: pages_more pages_last)
  have "\<exists>rs d'. harvest 2 ex_cfg (ex_req ex_list_get) ''ListRecords'' ex_db = Some (rs, d') \<and>
     map resp_matches rs = map Some (pages (results_limit ex_cfg) (objects_filter ex_query ex_db))"
    by (rule harvest_refines_pages)
      (simp_all add: ex_tokens_wf show_nat_inj ex_getListQuery ex_objects_filter list_verbs_def)
  then show ?thesis using p by (simp add: ex_objects_filter)
qed

theorem getListQuery_query_params_witness:
  "getListQuery ex_ctx (query_params ''ListRecords'' ex_query2) ex_db = Inr (Inr ex_query2)"
  by (rule getListQuery_query_params)
    (simp_all add: ex_query2_def set_get_def objects_get_def ex_db_def date_param_ok_def days_in_month_def
      list_query_ok_def less_eq_datetime_def)

theorem updateSource_found_witness:
  "updateSource ex_now (src_pk ex_source) ex_sdb =
    (SourcePage ''oai/updateSource.html'' ex_source,
     ex_sdb\<lparr>src_queue := src_queue ex_sdb @
        [\<lparr>job_task = ''fetch_from_source'', job_eta = ex_now, job_kwargs = [(''pk'', src_pk ex_source)]\<rparr>]\<rparr>)"
  by (rule updateSource_found) (simp_all add: ex_sdb_def)

theorem updateSource_missing_witness: "updateSource ex_now 8 ex_sdb = (NotFound, ex_sdb)"
  by (rule updateSource_missing) (simp add: ex_sdb_def ex_source_def)

theorem updateSource_wf_witness: "sources_wf (snd (updateSource ex_now 7 ex_sdb))"
  by (rule updateSource_wf) (simp add: sources_wf_def ex_sdb_def)

theorem updateSources_queue_witness:
  "src_queue (updateSources ex_now [7, 8, 7] ex_sdb) =
    [\<lparr>job_task = ''fetch_from_source'', job_eta = ex_now, job_kwargs = [(''pk'', 7)]\<rparr>,
     \<lparr>job_task = ''fetch_from_source'', job_eta = ex_now, job_kwargs = [(''pk'', 7)]\<rparr>]"
  using updateSources_queue [where s = ex_sdb and now = ex_now and pks = "[7, 8, 7]"]
  by (simp add: ex_sdb_def ex_source_def)

theorem endpoint_page_bound_witness: "length [ex_rec 1, ex_rec 2] \<le> results_limit ex_cfg"
  by (rule endpoint_page_bound [where req = "ex_req ex_list_get" and d = ex_db]) (simp add: ex_endpoint0)

theorem endpoint_timestamp_length_witness:
  "length (ctx_timestamp (ex_ctx\<lparr>ctx_token := Some ex_tok, ctx_matches := Some [ex_rec 1, ex_rec 2]\<rparr>)) = 20"
  by (rule endpoint_timestamp_length [where cfg = ex_cfg and req = "ex_req ex_list_get" and d = ex_db
        and tpl = "''oai/ListRecords.xml''"])
    (simp_all add: ex_endpoint0 days_in_month_def)

lemma ex_typed_query: "getListQuery ctx ex_typed_get ex_db = Inr (Inr ex_query2)"
  by (simp add: getListQuery_eq qd_get_def check_set_def set_get_def objects_get_def ex_db_def
      leftover_args_def list_args_def qd_dict_def dict_set_def ex_typed_get_def ex_query2_def ex_dates
      parse_date_param_Some list_query_ok_def less_datetime_def)

theorem getListQuery_typed_witness: "query_typed ex_db ex_query2"
  by (rule getListQuery_typed [OF ex_typed_query])

lemma ex_served: "served ex_cfg ex_db ex_db1"
  using served_step [OF served_refl, of ex_cfg ex_db "ex_req ex_list_get"] by (simp add: ex_endpoint0)

theorem endpoint_served_store_witness:
  "tokens_wf (key_generator ex_cfg) ex_db1 \<and> tokens_keyed ex_db1 \<and>
   db_records ex_db1 = db_records ex_db \<and> db_sets ex_db1 = db_sets ex_db"
  by (rule endpoint_served_store [OF ex_served]) (simp_all add: ex_tokens_wf, simp add: tokens_keyed_def ex_db_def)

theorem endpoint_token_durable_witness:
  "resp_matches (fst (endpoint ex_cfg (ex_req [(''verb'', ''ListRecords''), (''resumptionToken'', ''1'')])
      (snd (endpoint ex_cfg (ex_req ex_list_get) ex_db1)))) =
   resp_matches (fst (endpoint ex_cfg (ex_req [(''verb'', ''ListRecords''), (''resumptionToken'', ''1'')]) ex_db1))"
  by (rule endpoint_token_durable [where t = ex_tok and k = "''1''"])
    (simp_all add: served_step [OF served_refl] ex_tokens_wf show_nat_inj,
      simp_all add: ex_db1_def ex_tok_def qd_get_def list_verbs_def)


end
